theory Spec2Isabelle
  imports Main "HOL-Library.Word"
begin

unbundle bit_operations_syntax

section \<open>Byte strings\<close>

text \<open>
  Go strings are byte sequences; they are modelled as \<open>string\<close> (a list of 8-bit
  characters).  The functions of package \<open>strings\<close> that the deployer calls are written
  out below.
\<close>

abbreviation NL :: char where
  "NL \<equiv> CHR 0x0A"

definition HasPrefix :: "string \<Rightarrow> string \<Rightarrow> bool" where
  "HasPrefix s pre = (take (length pre) s = pre)"

definition HasSuffix :: "string \<Rightarrow> string \<Rightarrow> bool" where
  "HasSuffix s suf = (length suf \<le> length s \<and> drop (length s - length suf) s = suf)"

text \<open>\<open>strings.Index\<close>: the position of the first occurrence, or \<open>-1\<close>.\<close>

fun Index :: "string \<Rightarrow> string \<Rightarrow> int" where
  "Index [] sub = (if sub = [] then 0 else - 1)"
| "Index (c # cs) sub =
     (if HasPrefix (c # cs) sub then 0
      else (let r = Index cs sub in if r < 0 then - 1 else r + 1))"

definition Contains :: "string \<Rightarrow> string \<Rightarrow> bool" where
  "Contains s sub = (0 \<le> Index s sub)"

text \<open>
  White space is what Go's \<open>unicode.IsSpace\<close> accepts: the code points U+0009 to
  U+000D, U+0020, U+0085, U+00A0, U+1680, U+2000 to U+200A, U+2028, U+2029, U+202F, U+205F
  and U+3000.  \<open>spaceRunes\<close> lists their UTF-8 encodings.  A lead byte of an encoding is
  never a continuation byte, and an invalid byte is decoded as a rune of width one, so the
  runes of a string that are white space are exactly the occurrences of these encodings.
  \<open>leadingSpace s\<close> is the width of the white-space rune that \<open>s\<close> begins with and
  \<open>trailingSpace s\<close> the width of the one it ends with, \<open>0\<close> if there is none.
\<close>

definition spaceRunes :: "string list" where
  "spaceRunes =
     [[CHR 0x09], [CHR 0x0A], [CHR 0x0B], [CHR 0x0C], [CHR 0x0D], [CHR 0x20],
      [CHR 0xC2, CHR 0x85], [CHR 0xC2, CHR 0xA0], [CHR 0xE1, CHR 0x9A, CHR 0x80],
      [CHR 0xE2, CHR 0x80, CHR 0x80], [CHR 0xE2, CHR 0x80, CHR 0x81],
      [CHR 0xE2, CHR 0x80, CHR 0x82], [CHR 0xE2, CHR 0x80, CHR 0x83],
      [CHR 0xE2, CHR 0x80, CHR 0x84], [CHR 0xE2, CHR 0x80, CHR 0x85],
      [CHR 0xE2, CHR 0x80, CHR 0x86], [CHR 0xE2, CHR 0x80, CHR 0x87],
      [CHR 0xE2, CHR 0x80, CHR 0x88], [CHR 0xE2, CHR 0x80, CHR 0x89],
      [CHR 0xE2, CHR 0x80, CHR 0x8A], [CHR 0xE2, CHR 0x80, CHR 0xA8],
      [CHR 0xE2, CHR 0x80, CHR 0xA9], [CHR 0xE2, CHR 0x80, CHR 0xAF],
      [CHR 0xE2, CHR 0x81, CHR 0x9F], [CHR 0xE3, CHR 0x80, CHR 0x80]]"

definition leadingSpace :: "string \<Rightarrow> nat" where
  "leadingSpace s = (case find (HasPrefix s) spaceRunes of None \<Rightarrow> 0 | Some e \<Rightarrow> length e)"

definition trailingSpace :: "string \<Rightarrow> nat" where
  "trailingSpace s = (case find (HasSuffix s) spaceRunes of None \<Rightarrow> 0 | Some e \<Rightarrow> length e)"

text \<open>\<open>strings.TrimSpace\<close>: all leading and trailing white space removed.\<close>

function trimLeftSpace :: "string \<Rightarrow> string" where
  "trimLeftSpace s = (if leadingSpace s = 0 then s else trimLeftSpace (drop (leadingSpace s) s))"
  by pat_completeness auto
termination
proof (relation "measure length")
  show "wf (measure length)" by simp
next
  fix s :: string
  assume a: "leadingSpace s \<noteq> 0"
  have "leadingSpace s \<le> length s"
  proof (cases "find (HasPrefix s) spaceRunes")
    case None
    then show ?thesis by (simp add: leadingSpace_def)
  next
    case (Some e)
    then have "HasPrefix s e" by (auto simp: find_Some_iff)
    then have "length e \<le> length s" by (metis HasPrefix_def length_take min.cobounded1)
    with Some show ?thesis by (simp add: leadingSpace_def)
  qed
  with a show "(drop (leadingSpace s) s, s) \<in> measure length" by simp
qed

function trimRightSpace :: "string \<Rightarrow> string" where
  "trimRightSpace s =
     (if trailingSpace s = 0 then s else trimRightSpace (take (length s - trailingSpace s) s))"
  by pat_completeness auto
termination
proof (relation "measure length")
  show "wf (measure length)" by simp
next
  fix s :: string
  assume a: "trailingSpace s \<noteq> 0"
  have "trailingSpace s \<le> length s"
    by (auto simp: trailingSpace_def HasSuffix_def find_Some_iff split: option.split)
  with a show "(take (length s - trailingSpace s) s, s) \<in> measure length" by simp
qed

declare trimLeftSpace.simps [simp del] trimRightSpace.simps [simp del]

definition TrimSpace :: "string \<Rightarrow> string" where
  "TrimSpace s = trimRightSpace (trimLeftSpace s)"

definition TrimLeft :: "string \<Rightarrow> string \<Rightarrow> string" where
  "TrimLeft s cutset = dropWhile (\<lambda>c. c \<in> set cutset) s"

definition TrimSuffix :: "string \<Rightarrow> string \<Rightarrow> string" where
  "TrimSuffix s suf = (if HasSuffix s suf then take (length s - length suf) s else s)"

text \<open>
  \<open>strings.Fields\<close>: the pieces between runs of white space.  \<open>cur\<close> is the field that
  is being collected.
\<close>

function fieldsFrom :: "string \<Rightarrow> string \<Rightarrow> string list" where
  "fieldsFrom cur s =
     (if s = [] then (if cur = [] then [] else [cur])
      else if leadingSpace s \<noteq> 0 then
        (if cur = [] then fieldsFrom [] (drop (leadingSpace s) s)
         else cur # fieldsFrom [] (drop (leadingSpace s) s))
      else fieldsFrom (cur @ [hd s]) (tl s))"
  by pat_completeness auto
termination
  by (relation "measure (\<lambda>(cur, s). length s)") auto

declare fieldsFrom.simps [simp del]

definition Fields :: "string \<Rightarrow> string list" where
  "Fields s = fieldsFrom [] s"

text \<open>
  \<open>strings.Split(s, sep)\<close> for a separator of one byte: always at least one piece.
  \<open>SplitLines s\<close> is \<open>strings.Split(s, "\n")\<close>.
\<close>

fun Split :: "string \<Rightarrow> char \<Rightarrow> string list" where
  "Split [] sep = [[]]"
| "Split (c # cs) sep =
     (if c = sep then [] # Split cs sep
      else (case Split cs sep of [] \<Rightarrow> [[c]] | l # ls \<Rightarrow> (c # l) # ls))"

definition SplitLines :: "string \<Rightarrow> string list" where
  "SplitLines s = Split s NL"

fun Join :: "string list \<Rightarrow> string \<Rightarrow> string" where
  "Join [] sep = []"
| "Join [x] sep = x"
| "Join (x # y # ys) sep = x @ sep @ Join (y # ys) sep"

text \<open>
  \<open>strings.Replace(s, old, new, n)\<close> for a non-empty \<open>old\<close>: the first \<open>n\<close>
  non-overlapping occurrences are replaced, all of them when \<open>n < 0\<close>.  Every call in the
  deployer passes a constant, non-empty placeholder as \<open>old\<close>; for an empty \<open>old\<close>
  (where Go inserts at rune boundaries) the model returns \<open>s\<close>.
\<close>

function Replace :: "string \<Rightarrow> string \<Rightarrow> string \<Rightarrow> int \<Rightarrow> string" where
  "Replace s old new n =
     (if old = [] \<or> n = 0 \<or> s = [] then s
      else if HasPrefix s old
        then new @ Replace (drop (length old) s) old new (if n < 0 then n else n - 1)
      else hd s # Replace (tl s) old new n)"
  by pat_completeness auto
termination
  by (relation "measure (\<lambda>(s, old, new, n). length s)") auto

declare Replace.simps [simp del]

section \<open>Documentation generator: parsing help text\<close>

text \<open>\<open>stripFrontmatter\<close> removes existing YAML frontmatter from content.\<close>

definition stripFrontmatter :: "string \<Rightarrow> string" where
  "stripFrontmatter content =
     (if \<not> HasPrefix content ''---'' then content
      else (let rest = drop 3 content; idx = Index rest ''---'' in
        if idx = - 1 then content
        else TrimLeft (drop (nat (idx + 3)) rest) [NL]))"

text \<open>\<open>parseDescription\<close>: the first non-empty line before a \<open>Usage:\<close> line.\<close>

fun parseDescriptionLines :: "string list \<Rightarrow> string" where
  "parseDescriptionLines [] = []"
| "parseDescriptionLines (line # lines) =
     (let trimmed = TrimSpace line in
      if trimmed \<noteq> [] \<and> \<not> HasPrefix trimmed ''Usage:'' then trimmed
      else if HasPrefix trimmed ''Usage:'' then []
      else parseDescriptionLines lines)"

definition parseDescription :: "string \<Rightarrow> string" where
  "parseDescription helpOutput = parseDescriptionLines (SplitLines helpOutput)"

text \<open>
  \<open>parseUsage\<close>: the line after a \<open>Usage:\<close> line, without its first token.  The loop
  goes on to later \<open>Usage:\<close> lines when the following line has fewer than two tokens.
\<close>

fun parseUsageLines :: "string list \<Rightarrow> string" where
  "parseUsageLines [] = []"
| "parseUsageLines (line # lines) =
     (if HasPrefix (TrimSpace line) ''Usage:'' then
        (case lines of
           [] \<Rightarrow> parseUsageLines lines
         | nxt # _ \<Rightarrow>
             (let parts = Fields (TrimSpace nxt) in
              if 1 < length parts then Join (tl parts) '' ''
              else parseUsageLines lines))
      else parseUsageLines lines)"

definition parseUsage :: "string \<Rightarrow> string" where
  "parseUsage helpOutput = parseUsageLines (SplitLines helpOutput)"

text \<open>
  \<open>formatFlag\<close> first collects the flag names, then an optional type token, and takes the
  rest as the description; \<open>flagParts\<close> returns these three local variables
  (\<open>flagPart\<close>, \<open>typePart\<close>, \<open>descParts\<close>) and \<open>formatFlag\<close> renders them.
\<close>

fun collectFlagNames :: "string \<Rightarrow> string list \<Rightarrow> string \<times> string list" where
  "collectFlagNames flagPart [] = (flagPart, [])"
| "collectFlagNames flagPart (p # ps) =
     (if HasPrefix p ''-'' \<or> p = '','' then
        collectFlagNames
          (if p \<noteq> '',''
           then (if flagPart \<noteq> [] then flagPart @ '', '' else flagPart) @ TrimSuffix p '',''
           else flagPart) ps
      else (flagPart, p # ps))"

definition commonTypes :: "string list" where
  "commonTypes = [''string'', ''int'', ''int64'', ''bool'', ''float64'', ''duration'',
                  ''stringArray'', ''intSlice'']"

definition flagParts :: "string list \<Rightarrow> string \<times> string \<times> string list" where
  "flagParts parts =
     (case collectFlagNames [] parts of
        (flagPart, rest) \<Rightarrow>
          (case rest of
             [] \<Rightarrow> (flagPart, [], [])
           | p # ps \<Rightarrow> if p \<in> set commonTypes then (flagPart, p, ps) else (flagPart, [], p # ps)))"

definition formatFlag :: "string \<Rightarrow> string" where
  "formatFlag line =
     (let parts = Fields line in
      if length parts < 2 then []
      else (case flagParts parts of
        (flagPart, typePart, descParts) \<Rightarrow>
          ''`'' @ flagPart @ ''`''
          @ (if typePart \<noteq> [] then '' ('' @ typePart @ '')'' else [])
          @ (if descParts \<noteq> [] then '': '' @ Join descParts '' '' else [])))"

text \<open>\<open>parseFlags\<close>: the loop over the lines, with its flag \<open>inFlagsSection\<close>.\<close>

fun parseFlagsLines :: "bool \<Rightarrow> string list \<Rightarrow> string list" where
  "parseFlagsLines inFlagsSection [] = []"
| "parseFlagsLines inFlagsSection (line # lines) =
     (let trimmed = TrimSpace line in
      if HasPrefix trimmed ''Flags:'' then parseFlagsLines True lines
      else if inFlagsSection then
        (if trimmed = [] then parseFlagsLines inFlagsSection lines
         else if HasSuffix trimmed '':'' then []
         else if HasPrefix trimmed ''-'' then
           (let flag = formatFlag trimmed in
            if flag \<noteq> [] \<and> \<not> Contains flag ''--help''
            then flag # parseFlagsLines inFlagsSection lines
            else parseFlagsLines inFlagsSection lines)
         else parseFlagsLines inFlagsSection lines)
      else parseFlagsLines inFlagsSection lines)"

definition parseFlags :: "string \<Rightarrow> string list" where
  "parseFlags helpOutput = parseFlagsLines False (SplitLines helpOutput)"

text \<open>\<open>parseSubcommands\<close>: the names listed under \<open>Available Commands:\<close>.\<close>

fun parseSubcommandsLines :: "bool \<Rightarrow> string list \<Rightarrow> string list" where
  "parseSubcommandsLines inCommandsSection [] = []"
| "parseSubcommandsLines inCommandsSection (line # lines) =
     (let trimmed = TrimSpace line in
      if HasPrefix trimmed ''Available Commands:'' then parseSubcommandsLines True lines
      else if inCommandsSection then
        (if trimmed = [] \<or> HasSuffix trimmed '':'' then
           (if HasSuffix trimmed '':'' \<and> \<not> HasPrefix trimmed ''Available'' then []
            else parseSubcommandsLines inCommandsSection lines)
         else (case Fields trimmed of
            [] \<Rightarrow> parseSubcommandsLines inCommandsSection lines
          | cmdName # _ \<Rightarrow>
              if cmdName \<noteq> ''help'' \<and> cmdName \<noteq> ''completion''
              then cmdName # parseSubcommandsLines inCommandsSection lines
              else parseSubcommandsLines inCommandsSection lines))
      else parseSubcommandsLines inCommandsSection lines)"

definition parseSubcommands :: "string \<Rightarrow> string list" where
  "parseSubcommands helpText = parseSubcommandsLines False (SplitLines helpText)"

text \<open>\<open>formatCommand\<close> formats a leaf command with its description and flags.\<close>

definition formatCommand :: "string \<Rightarrow> string \<Rightarrow> string \<Rightarrow> string" where
  "formatCommand displayPath cmdPath helpOutput =
     (let description = parseDescription helpOutput;
          usage = parseUsage helpOutput;
          flags = parseFlags helpOutput
      in ''### '' @ cmdPath @ [NL, NL]
         @ (if description \<noteq> [] then description @ [NL, NL] else [])
         @ (if usage \<noteq> []
            then ''**Usage:** `'' @ displayPath @ '' '' @ usage @ ''`'' @ [NL, NL] else [])
         @ (if flags \<noteq> []
            then ''**Flags:**'' @ [NL] @ concat (map (\<lambda>flag. ''- '' @ flag @ [NL]) flags) @ [NL]
            else []))"

section \<open>Paths\<close>

text \<open>
  \<open>filepath.Join\<close> and \<open>filepath.Clean\<close> of Go's standard library, on Unix, by their
  documented rules: empty elements are ignored, the rest is joined with slashes and cleaned;
  cleaning drops empty and \<open>.\<close> elements, lets \<open>..\<close> cancel the element before it,
  drops \<open>..\<close> at the root, and turns an empty result into \<open>.\<close>.
\<close>

definition cleanStep :: "bool \<Rightarrow> string list \<Rightarrow> string \<Rightarrow> string list" where
  "cleanStep rooted out elem =
     (if elem = [] \<or> elem = ''.'' then out
      else if elem = ''..'' then
        (if out \<noteq> [] \<and> last out \<noteq> ''..'' then butlast out
         else if \<not> rooted then out @ [''..'']
         else out)
      else out @ [elem])"

definition Clean :: "string \<Rightarrow> string" where
  "Clean path =
     (if path = [] then ''.''
      else (let rooted = (hd path = CHR ''/'');
                out = (if rooted then ''/'' else []) @
                      Join (foldl (cleanStep rooted) [] (Split path (CHR ''/''))) ''/''
            in if out = [] then ''.'' else out))"

fun pathJoin :: "string list \<Rightarrow> string" where
  "pathJoin [] = []"
| "pathJoin (e # es) = (if e = [] then pathJoin es else Clean (Join (e # es) ''/''))"

declare pathJoin.simps [simp del]

section \<open>Data model\<close>

text \<open>
  The structs of package \<open>skill\<close>, with the fields the wizard and the deployer read.
\<close>

record Variable =
  VarName :: string
  VarLabel :: string
  VarPlaceholder :: string
  VarDefault :: string
  VarRequired :: bool
  VarType :: string

record Manifest =
  Name :: string
  Description :: string
  Path :: string
  Variables :: "Variable list"
  BuildBinary :: string
  DocsTemplate :: string

record SkillError =
  ErrName :: string
  ErrError :: string

text \<open>
  The text input widget of the \<open>bubbles\<close> library, with the fields the wizard sets;
  \<open>tiValue\<close> is what its method \<open>Value\<close> returns.
\<close>

datatype EchoMode = EchoNormal | EchoPassword | EchoNone

record textinput =
  tiValue :: string
  tiPlaceholder :: string
  CharLimit :: nat
  Width :: nat
  tiEchoMode :: EchoMode
  focus :: bool

definition textinputNew :: textinput where
  "textinputNew = \<lparr>tiValue = [], tiPlaceholder = [], CharLimit = 0, Width = 0,
                    tiEchoMode = EchoNormal, focus = False\<rparr>"

definition Blur :: "textinput \<Rightarrow> textinput" where
  "Blur ti = ti\<lparr>focus := False\<rparr>"

definition Focus :: "textinput \<Rightarrow> textinput" where
  "Focus ti = ti\<lparr>focus := True\<rparr>"

datatype View = ViewSkillList | ViewConfig | ViewDeploy | ViewConfirm | ViewOverwrite
  | ViewBuilding | ViewDone

record Model =
  projectRoot :: string
  version :: string
  manifests :: "Manifest list"
  skillErrors :: "SkillError list"
  currentView :: View
  skillCursor :: int
  selectedSkill :: "Manifest option"
  selectedError :: "SkillError option"
  configInputs :: "textinput list"
  configLabels :: "string list"
  configFocus :: int
  deployInputs :: "textinput list"
  deployLabels :: "string list"
  deployFocus :: int
  skillsFolder :: string
  skillFolderName :: string
  configValues :: "string \<rightharpoonup> string"
  statusMsg :: string
  errorMsg :: string
  building :: bool
  buildOutput :: string
  width :: int
  height :: int
  quitting :: bool

text \<open>
  \<open>NewModel\<close>, given what \<open>DiscoverSkills\<close> found: every other field has Go's zero
  value and the configuration map is empty.
\<close>

definition NewModel :: "string \<Rightarrow> string \<Rightarrow> Manifest list \<Rightarrow> SkillError list \<Rightarrow> Model" where
  "NewModel root ver ms errs =
     \<lparr>projectRoot = root, version = ver, manifests = ms, skillErrors = errs,
      currentView = ViewSkillList, skillCursor = 0, selectedSkill = None,
      selectedError = None, configInputs = [], configLabels = [], configFocus = 0,
      deployInputs = [], deployLabels = [], deployFocus = 0, skillsFolder = [],
      skillFolderName = [], configValues = Map.empty, statusMsg = [], errorMsg = [],
      building = False, buildOutput = [], width = 0, height = 0, quitting = False\<rparr>"

text \<open>
  Messages and commands of the event loop.  A build or deploy result carries its error, if
  any, as text.  The commands are the tasks the handler hands back to the runtime.
\<close>

datatype Msg =
    KeyMsg string
  | WindowSizeMsg int int
  | buildCompleteMsg string "string option"
  | deployCompleteMsg "string option"
  | OtherMsg

datatype Cmd = NoCmd | Quit | Blink | Batch | startBuild | deploySkillCmd

text \<open>
  The \<open>bubbles\<close> library is not part of the sources, so what the widget computes is a
  parameter \<open>lib\<close> of the wizard: \<open>widgetUpdate\<close> is what the widget does with a
  message, and \<open>widgetSetValue limit s\<close> is the text the widget holds after
  \<open>SetValue(s)\<close> under the character limit \<open>limit\<close> (the library sanitises \<open>s\<close> and
  cuts it at the limit, counted in runes).  \<open>SetValue\<close> changes the text of the widget
  and none of the fields the wizard sets.
\<close>

record Widget =
  widgetUpdate :: "Msg \<Rightarrow> textinput \<Rightarrow> textinput"
  widgetSetValue :: "nat \<Rightarrow> string \<Rightarrow> string"

definition SetValue :: "Widget \<Rightarrow> string \<Rightarrow> textinput \<Rightarrow> textinput" where
  "SetValue lib s ti = ti\<lparr>tiValue := widgetSetValue lib (CharLimit ti) s\<rparr>"

text \<open>A run-time panic of the Go program is a result of its own.\<close>

datatype panic = IndexOutOfRange | NilDereference | DivideByZero

text \<open>
  The file system: a path is bound to the bytes of the file and to its permission bits
  (Go's \<open>os.FileMode\<close>, a 32-bit integer).  \<open>os.Stat\<close> and \<open>os.ReadFile\<close> succeed on
  the bound paths.
\<close>

type_synonym FileMode = "32 word"

type_synonym fsys = "string \<rightharpoonup> string \<times> FileMode"

definition statOk :: "fsys \<Rightarrow> string \<Rightarrow> bool" where
  "statOk fs p = (fs p \<noteq> None)"

section \<open>The wizard\<close>

text \<open>Indexing a slice panics outside \<open>0 \<le> i < len\<close>.\<close>

definition blurAt :: "textinput list \<Rightarrow> int \<Rightarrow> panic + textinput list" where
  "blurAt inputs i =
     (if 0 \<le> i \<and> i < int (length inputs)
      then Inr (inputs[nat i := Blur (inputs ! nat i)]) else Inl IndexOutOfRange)"

definition focusAt :: "textinput list \<Rightarrow> int \<Rightarrow> panic + textinput list" where
  "focusAt inputs i =
     (if 0 \<le> i \<and> i < int (length inputs)
      then Inr (inputs[nat i := Focus (inputs ! nat i)]) else Inl IndexOutOfRange)"

text \<open>
  The \<open>tab\<close>/\<open>down\<close> branch: blur the focused input, step the focus modulo the number of
  inputs, focus the new one.  Where the remainder is taken both operands are
  non-negative (the index check before it has passed), so Go's \<open>%\<close> is \<open>mod\<close>.
\<close>

definition focusNext :: "textinput list \<Rightarrow> int \<Rightarrow> panic + textinput list \<times> int" where
  "focusNext inputs f =
     (case blurAt inputs f of
        Inl e \<Rightarrow> Inl e
      | Inr inputs1 \<Rightarrow>
          if length inputs1 = 0 then Inl DivideByZero
          else (let f' = (f + 1) mod int (length inputs1) in
            case focusAt inputs1 f' of
              Inl e \<Rightarrow> Inl e
            | Inr inputs2 \<Rightarrow> Inr (inputs2, f')))"

text \<open>The \<open>shift+tab\<close>/\<open>up\<close> branch.\<close>

definition focusPrev :: "textinput list \<Rightarrow> int \<Rightarrow> panic + textinput list \<times> int" where
  "focusPrev inputs f =
     (case blurAt inputs f of
        Inl e \<Rightarrow> Inl e
      | Inr inputs1 \<Rightarrow>
          (let f1 = f - 1; f' = (if f1 < 0 then int (length inputs1) - 1 else f1) in
           case focusAt inputs1 f' of
             Inl e \<Rightarrow> Inl e
           | Inr inputs2 \<Rightarrow> Inr (inputs2, f')))"

text \<open>Blur every input, then focus the first one if there is one.\<close>

definition focusFirst :: "textinput list \<Rightarrow> textinput list" where
  "focusFirst inputs =
     (case map Blur inputs of [] \<Rightarrow> [] | x # xs \<Rightarrow> Focus x # xs)"

text \<open>\<open>setupInputsFromManifest\<close> creates input fields for skill environment variables.\<close>

definition variableInput :: "Widget \<Rightarrow> (string \<rightharpoonup> string) \<Rightarrow> Variable \<Rightarrow> textinput" where
  "variableInput lib cv v =
     (let input = textinputNew;
          input = input\<lparr>tiPlaceholder := VarPlaceholder v\<rparr>;
          input = (if tiPlaceholder input = [] \<and> VarDefault v \<noteq> []
                   then input\<lparr>tiPlaceholder := VarDefault v\<rparr> else input);
          input = input\<lparr>CharLimit := 200, Width := 50\<rparr>;
          input = (if VarType v = ''secret''
                   then input\<lparr>tiEchoMode := EchoPassword\<rparr> else input)
      in case cv (VarName v) of None \<Rightarrow> input | Some val \<Rightarrow> SetValue lib val input)"

definition setupInputsFromManifest :: "Widget \<Rightarrow> Model \<Rightarrow> Model" where
  "setupInputsFromManifest lib m =
     (case selectedSkill m of
        None \<Rightarrow> m
      | Some sk \<Rightarrow>
          m\<lparr>configInputs := focusFirst (map (variableInput lib (configValues m)) (Variables sk)),
            configLabels := map VarLabel (Variables sk),
            configFocus := 0\<rparr>)"

text \<open>\<open>setupDeployInputs\<close> creates input fields for deploy settings.\<close>

definition setupDeployInputs :: "Widget \<Rightarrow> Model \<Rightarrow> Model" where
  "setupDeployInputs lib m =
     (let skillsFolderInput =
            textinputNew\<lparr>tiPlaceholder := ''/path/to/.claude/skills/'',
                          CharLimit := 200, Width := 50\<rparr>;
          skillsFolderInput =
            (if skillsFolder m \<noteq> [] then SetValue lib (skillsFolder m) skillsFolderInput
             else skillsFolderInput);
          skillNameInput =
            (case selectedSkill m of
               None \<Rightarrow> textinputNew
             | Some sk \<Rightarrow> textinputNew\<lparr>tiPlaceholder := Name sk\<rparr>);
          skillNameInput = skillNameInput\<lparr>CharLimit := 100, Width := 50\<rparr>;
          skillNameInput =
            (if skillFolderName m \<noteq> [] then SetValue lib (skillFolderName m) skillNameInput
             else (case selectedSkill m of
                     None \<Rightarrow> skillNameInput
                   | Some sk \<Rightarrow> SetValue lib (Name sk) skillNameInput))
      in m\<lparr>deployInputs := [Focus (Blur skillsFolderInput), Blur skillNameInput],
           deployLabels := [''Skills Folder'', ''Skill Name''],
           deployFocus := 0\<rparr>)"

text \<open>
  \<open>validateConfigInputs\<close>: the loop over the variables, with the index \<open>i\<close> of the input
  it reads.  The input is read only for a required variable.  The result is the error
  message of the first required variable whose input is empty, if there is one.
\<close>

fun validateVariables :: "Variable list \<Rightarrow> textinput list \<Rightarrow> nat \<Rightarrow> panic + string option" where
  "validateVariables [] inputs i = Inr None"
| "validateVariables (v # vs) inputs i =
     (if VarRequired v then
        (if i < length inputs then
           (if tiValue (inputs ! i) = [] then Inr (Some (VarLabel v @ '' is required''))
            else validateVariables vs inputs (Suc i))
         else Inl IndexOutOfRange)
      else validateVariables vs inputs (Suc i))"

definition validateConfigInputs :: "Model \<Rightarrow> panic + bool \<times> Model" where
  "validateConfigInputs m =
     (case selectedSkill m of
        None \<Rightarrow> Inr (False, m\<lparr>errorMsg := ''No skill selected''\<rparr>)
      | Some sk \<Rightarrow>
          (case validateVariables (Variables sk) (configInputs m) 0 of
             Inl e \<Rightarrow> Inl e
           | Inr (Some err) \<Rightarrow> Inr (False, m\<lparr>errorMsg := err\<rparr>)
           | Inr None \<Rightarrow> Inr (True, m\<lparr>errorMsg := []\<rparr>)))"

definition validateDeployInputs :: "Model \<Rightarrow> panic + bool \<times> Model" where
  "validateDeployInputs m =
     (if length (deployInputs m) < 1 then Inl IndexOutOfRange
      else if tiValue (deployInputs m ! 0) = []
        then Inr (False, m\<lparr>errorMsg := ''Skills Folder is required''\<rparr>)
      else if length (deployInputs m) < 2 then Inl IndexOutOfRange
      else if tiValue (deployInputs m ! 1) = []
        then Inr (False, m\<lparr>errorMsg := ''Skill Name is required''\<rparr>)
      else Inr (True, m\<lparr>errorMsg := []\<rparr>))"

text \<open>\<open>saveConfigInputs\<close>: one write into the map per variable, in order.\<close>

fun saveVariables ::
  "Variable list \<Rightarrow> textinput list \<Rightarrow> nat \<Rightarrow> (string \<rightharpoonup> string) \<Rightarrow> panic + (string \<rightharpoonup> string)"
where
  "saveVariables [] inputs i cv = Inr cv"
| "saveVariables (v # vs) inputs i cv =
     (if i < length inputs
      then saveVariables vs inputs (Suc i) (cv(VarName v \<mapsto> tiValue (inputs ! i)))
      else Inl IndexOutOfRange)"

definition saveConfigInputs :: "Model \<Rightarrow> panic + Model" where
  "saveConfigInputs m =
     (case selectedSkill m of
        None \<Rightarrow> Inr m
      | Some sk \<Rightarrow>
          (case saveVariables (Variables sk) (configInputs m) 0 (configValues m) of
             Inl e \<Rightarrow> Inl e
           | Inr cv \<Rightarrow> Inr (m\<lparr>configValues := cv\<rparr>)))"

definition saveDeployInputs :: "Model \<Rightarrow> panic + Model" where
  "saveDeployInputs m =
     (if length (deployInputs m) < 2 then Inl IndexOutOfRange
      else Inr (m\<lparr>skillsFolder := tiValue (deployInputs m ! 0),
                  skillFolderName := tiValue (deployInputs m ! 1)\<rparr>))"

text \<open>\<open>getDeployPath\<close> returns the full deploy path (skillsFolder + skillFolderName).\<close>

definition getDeployPath :: "Model \<Rightarrow> string" where
  "getDeployPath m = pathJoin [skillsFolder m, skillFolderName m]"

definition binaryName :: "Manifest \<Rightarrow> string" where
  "binaryName sk = (if BuildBinary sk = [] then Name sk else BuildBinary sk)"

text \<open>\<open>skillExists\<close> checks if the deploy path already contains a skill.\<close>

definition skillExists :: "fsys \<Rightarrow> Model \<Rightarrow> panic + bool" where
  "skillExists fs m =
     (let deployPath = getDeployPath m in
      if deployPath = [] then Inr False
      else (case selectedSkill m of
              None \<Rightarrow> Inl NilDereference
            | Some sk \<Rightarrow> Inr (statOk fs (pathJoin [deployPath, ''bin'', binaryName sk]))))"

definition updateConfigInputs :: "Widget \<Rightarrow> Model \<Rightarrow> Msg \<Rightarrow> Model \<times> Cmd" where
  "updateConfigInputs lib m msg =
     (m\<lparr>configInputs := map (widgetUpdate lib msg) (configInputs m)\<rparr>, Batch)"

definition updateDeployInputs :: "Widget \<Rightarrow> Model \<Rightarrow> Msg \<Rightarrow> Model \<times> Cmd" where
  "updateDeployInputs lib m msg =
     (m\<lparr>deployInputs := map (widgetUpdate lib msg) (deployInputs m)\<rparr>, Batch)"

definition handleSkillListView :: "Widget \<Rightarrow> Model \<Rightarrow> string \<Rightarrow> panic + Model \<times> Cmd" where
  "handleSkillListView lib m key =
     (let totalItems = int (length (manifests m)) + int (length (skillErrors m)) in
      if key = ''q'' \<or> key = ''esc'' then Inr (m\<lparr>quitting := True\<rparr>, Quit)
      else if key = ''up'' \<or> key = ''k'' then
        Inr (if 0 < skillCursor m then m\<lparr>skillCursor := skillCursor m - 1\<rparr> else m, NoCmd)
      else if key = ''down'' \<or> key = ''j'' then
        Inr (if skillCursor m < totalItems - 1 then m\<lparr>skillCursor := skillCursor m + 1\<rparr> else m,
             NoCmd)
      else if key = ''enter'' then
        (if skillCursor m < int (length (manifests m)) then
           (if skillCursor m < 0 then Inl IndexOutOfRange
            else Inr (setupInputsFromManifest lib
                        (m\<lparr>selectedSkill := Some (manifests m ! nat (skillCursor m)),
                           selectedError := None,
                           currentView := ViewConfig\<rparr>), Blink))
         else if skillCursor m < totalItems then
           (let e = skillErrors m ! nat (skillCursor m - int (length (manifests m))) in
            Inr (m\<lparr>selectedError := Some e, selectedSkill := None, errorMsg := ErrError e\<rparr>,
                 NoCmd))
         else Inr (m, NoCmd))
      else Inr (m, NoCmd))"

definition handleConfirmView :: "fsys \<Rightarrow> Model \<Rightarrow> string \<Rightarrow> panic + Model \<times> Cmd" where
  "handleConfirmView fs m key =
     (if key = ''esc'' \<or> key = ''n'' then
        Inr (m\<lparr>currentView := ViewDeploy, deployFocus := 0,
               deployInputs := focusFirst (deployInputs m)\<rparr>, Blink)
      else if key = ''enter'' \<or> key = ''y'' then
        (case skillExists fs m of
           Inl e \<Rightarrow> Inl e
         | Inr True \<Rightarrow> Inr (m\<lparr>currentView := ViewOverwrite\<rparr>, NoCmd)
         | Inr False \<Rightarrow>
             Inr (m\<lparr>currentView := ViewBuilding, building := True, errorMsg := [],
                    statusMsg := []\<rparr>, startBuild))
      else Inr (m, NoCmd))"

definition handleOverwriteView :: "Model \<Rightarrow> string \<Rightarrow> panic + Model \<times> Cmd" where
  "handleOverwriteView m key =
     (if key = ''esc'' \<or> key = ''n'' then Inr (m\<lparr>currentView := ViewConfirm\<rparr>, NoCmd)
      else if key = ''y'' then
        Inr (m\<lparr>currentView := ViewBuilding, building := True, errorMsg := [],
               statusMsg := []\<rparr>, startBuild)
      else Inr (m, NoCmd))"

definition handleDoneView :: "Model \<Rightarrow> string \<Rightarrow> panic + Model \<times> Cmd" where
  "handleDoneView m key =
     (if key = ''enter'' \<or> key = ''q'' \<or> key = ''esc'' then Inr (m\<lparr>quitting := True\<rparr>, Quit)
      else if key = ''r'' then
        Inr (m\<lparr>currentView := ViewSkillList, errorMsg := [], statusMsg := [],
               buildOutput := []\<rparr>, NoCmd)
      else Inr (m, NoCmd))"

definition handleKeyPress :: "Widget \<Rightarrow> fsys \<Rightarrow> Model \<Rightarrow> string \<Rightarrow> panic + Model \<times> Cmd" where
  "handleKeyPress lib fs m key =
     (case currentView m of
        ViewSkillList \<Rightarrow> handleSkillListView lib m key
      | ViewConfirm \<Rightarrow> handleConfirmView fs m key
      | ViewOverwrite \<Rightarrow> handleOverwriteView m key
      | ViewDone \<Rightarrow> handleDoneView m key
      | _ \<Rightarrow> Inr (m, NoCmd))"

text \<open>The key handling of the config view, inside \<open>Update\<close>.\<close>

definition updateConfigView :: "Widget \<Rightarrow> Model \<Rightarrow> string \<Rightarrow> panic + Model \<times> Cmd" where
  "updateConfigView lib m key =
     (if key = ''esc'' then Inr (m\<lparr>currentView := ViewSkillList, errorMsg := []\<rparr>, NoCmd)
      else if key = ''tab'' \<or> key = ''down'' then
        (case focusNext (configInputs m) (configFocus m) of
           Inl e \<Rightarrow> Inl e
         | Inr (inputs, f) \<Rightarrow> Inr (m\<lparr>configInputs := inputs, configFocus := f\<rparr>, Blink))
      else if key = ''shift+tab'' \<or> key = ''up'' then
        (case focusPrev (configInputs m) (configFocus m) of
           Inl e \<Rightarrow> Inl e
         | Inr (inputs, f) \<Rightarrow> Inr (m\<lparr>configInputs := inputs, configFocus := f\<rparr>, Blink))
      else if key = ''ctrl+d'' \<or> key = ''enter'' then
        (case validateConfigInputs m of
           Inl e \<Rightarrow> Inl e
         | Inr (False, m1) \<Rightarrow> Inr (m1, Blink)
         | Inr (True, m1) \<Rightarrow>
             (case saveConfigInputs m1 of
                Inl e \<Rightarrow> Inl e
              | Inr m2 \<Rightarrow> Inr ((setupDeployInputs lib m2)\<lparr>currentView := ViewDeploy\<rparr>, Blink)))
      else Inr (updateConfigInputs lib m (KeyMsg key)))"

text \<open>The key handling of the deploy view, inside \<open>Update\<close>.\<close>

definition updateDeployView :: "Widget \<Rightarrow> Model \<Rightarrow> string \<Rightarrow> panic + Model \<times> Cmd" where
  "updateDeployView lib m key =
     (if key = ''esc'' then
        Inr (m\<lparr>currentView := ViewConfig, errorMsg := [], configFocus := 0,
               configInputs := focusFirst (configInputs m)\<rparr>, Blink)
      else if key = ''tab'' \<or> key = ''down'' then
        (case focusNext (deployInputs m) (deployFocus m) of
           Inl e \<Rightarrow> Inl e
         | Inr (inputs, f) \<Rightarrow> Inr (m\<lparr>deployInputs := inputs, deployFocus := f\<rparr>, Blink))
      else if key = ''shift+tab'' \<or> key = ''up'' then
        (case focusPrev (deployInputs m) (deployFocus m) of
           Inl e \<Rightarrow> Inl e
         | Inr (inputs, f) \<Rightarrow> Inr (m\<lparr>deployInputs := inputs, deployFocus := f\<rparr>, Blink))
      else if key = ''ctrl+d'' \<or> key = ''enter'' then
        (case validateDeployInputs m of
           Inl e \<Rightarrow> Inl e
         | Inr (False, m1) \<Rightarrow> Inr (m1, NoCmd)
         | Inr (True, m1) \<Rightarrow>
             (case saveDeployInputs m1 of
                Inl e \<Rightarrow> Inl e
              | Inr m2 \<Rightarrow> Inr (m2\<lparr>currentView := ViewConfirm\<rparr>, NoCmd)))
      else Inr (updateDeployInputs lib m (KeyMsg key)))"

text \<open>\<open>Update\<close> handles messages and updates the model.\<close>

definition Update :: "Widget \<Rightarrow> fsys \<Rightarrow> Model \<Rightarrow> Msg \<Rightarrow> panic + Model \<times> Cmd" where
  "Update lib fs m msg =
     (case msg of
        KeyMsg key \<Rightarrow>
          if key = ''ctrl+c'' then Inr (m\<lparr>quitting := True\<rparr>, Quit)
          else if currentView m = ViewConfig then updateConfigView lib m key
          else if currentView m = ViewDeploy then updateDeployView lib m key
          else handleKeyPress lib fs m key
      | WindowSizeMsg w h \<Rightarrow> Inr (m\<lparr>width := w, height := h\<rparr>, NoCmd)
      | buildCompleteMsg output err \<Rightarrow>
          (let m1 = m\<lparr>building := False, buildOutput := output\<rparr> in
           case err of
             Some e \<Rightarrow> Inr (m1\<lparr>errorMsg := e, currentView := ViewDone\<rparr>, NoCmd)
           | None \<Rightarrow> Inr (m1, deploySkillCmd))
      | deployCompleteMsg err \<Rightarrow>
          (case err of
             Some e \<Rightarrow> Inr (m\<lparr>currentView := ViewDone, errorMsg := e\<rparr>, NoCmd)
           | None \<Rightarrow>
               Inr (m\<lparr>currentView := ViewDone, statusMsg := ''Skill deployed successfully!''\<rparr>,
                    NoCmd))
      | OtherMsg \<Rightarrow> Inr (m, NoCmd))"

section \<open>The deployer\<close>

text \<open>
  What the deployer takes from outside the program: the result of running the built binary
  with \<open>--help\<close> after the given arguments (\<open>None\<close> when the invocation returns an
  error), whether \<open>os.WriteFile\<close> fails at a path, the file mode creation mask of the
  process (its \<open>umask\<close>), and the manifest's method \<open>GetSkillDescription\<close>, whose body
  is not part of the sources.
\<close>

record Host =
  runHelp :: "string \<Rightarrow> string list \<Rightarrow> string option"
  writeFails :: "string \<Rightarrow> bool"
  umask :: FileMode
  GetSkillDescription :: "Manifest \<Rightarrow> string"

text \<open>Permission bits as the source writes them, in octal: \<open>0644\<close> is \<open>octal 6 4 4\<close>.\<close>

definition octal :: "nat \<Rightarrow> nat \<Rightarrow> nat \<Rightarrow> FileMode" where
  "octal a b c = of_nat (a * 64 + b * 8 + c)"

text \<open>
  \<open>os.WriteFile(path, data, perm)\<close>: a file that is not there is created with the
  permission bits \<open>perm\<close> less those of the mask; a file that is there is truncated and
  keeps its mode.  In both cases the bytes of the file are \<open>data\<close> afterwards.
\<close>

definition WriteFile :: "Host \<Rightarrow> fsys \<Rightarrow> string \<Rightarrow> string \<Rightarrow> FileMode \<Rightarrow> fsys option" where
  "WriteFile host fs path data perm =
     (if writeFails host path then None
      else Some (fs(path \<mapsto>
             (data, case fs path of
                      None \<Rightarrow> perm AND NOT (umask host)
                    | Some (old, mode) \<Rightarrow> mode))))"

text \<open>\<open>os.RemoveAll\<close>: the path and everything below it.\<close>

definition RemoveAll :: "fsys \<Rightarrow> string \<Rightarrow> fsys" where
  "RemoveAll fs dir = (\<lambda>p. if p = dir \<or> HasPrefix p (dir @ ''/'') then None else fs p)"

text \<open>
  \<open>generateEnvFile\<close> creates a .env file with environment variables.  In the functions
  below \<open>sk\<close> is the selected skill of \<open>m\<close>, which \<open>deploySkill\<close> and
  \<open>generateSkillDocs\<close> have checked to be there.
\<close>

definition envLine :: "(string \<rightharpoonup> string) \<Rightarrow> Variable \<Rightarrow> string" where
  "envLine cv v =
     (case cv (VarName v) of
        None \<Rightarrow> []
      | Some val \<Rightarrow> if val \<noteq> [] then VarName v @ ''='' @ val @ [NL] else [])"

definition generateEnvFile :: "Model \<Rightarrow> Manifest \<Rightarrow> string" where
  "generateEnvFile m sk =
     ''# Auto-generated environment file'' @ [NL]
     @ concat (map (envLine (configValues m)) (Variables sk))"

text \<open>\<open>generateFrontmatter\<close> creates YAML frontmatter from skill manifest.\<close>

definition generateFrontmatter :: "Host \<Rightarrow> Manifest \<Rightarrow> string" where
  "generateFrontmatter host sk =
     ''---'' @ [NL] @ ''name: '' @ Name sk @ [NL]
     @ ''description: '' @ GetSkillDescription host sk @ [NL] @ ''---'' @ [NL, NL]"

definition generateBasicDocs :: "Manifest \<Rightarrow> string" where
  "generateBasicDocs sk =
     ''# '' @ Name sk @ [NL, NL] @ Description sk @ [NL, NL]
     @ ''## Commands'' @ [NL, NL]
     @ ''Run `'' @ BuildBinary sk @ '' --help` to see available commands.'' @ [NL]"

definition generateProjectIDsTable :: "string \<Rightarrow> string" where
  "generateProjectIDsTable jsonStr =
     ''| ID | Projekt |'' @ [NL] @ ''|----|---------|'' @ [NL, NL]
     @ ''Config: `'' @ jsonStr @ ''`''"

definition helpFallback :: "string \<Rightarrow> string" where
  "helpFallback displayPath = ''Run `'' @ displayPath @ '' --help` to see available commands.''"

text \<open>
  \<open>extractCommands\<close> runs the binary with \<open>--help\<close> recursively and documents all leaf
  commands with flags.  \<open>subcommandDocs\<close> is the body of its inner loop and
  \<open>commandDocs\<close> the body of its outer loop: what one sub-command and one top-level command
  add to the builder.
\<close>

definition subcommandDocs :: "Host \<Rightarrow> string \<Rightarrow> string \<Rightarrow> string \<Rightarrow> string \<Rightarrow> string" where
  "subcommandDocs host binaryPath displayPath cmd sub =
     (case runHelp host binaryPath [cmd, sub] of
        None \<Rightarrow> []
      | Some subOutput \<Rightarrow> formatCommand displayPath (cmd @ '' '' @ sub) subOutput)"

definition commandDocs :: "Host \<Rightarrow> string \<Rightarrow> string \<Rightarrow> string \<Rightarrow> string" where
  "commandDocs host binaryPath displayPath cmd =
     (case runHelp host binaryPath [cmd] of
        None \<Rightarrow> []
      | Some cmdOutput \<Rightarrow>
          (let secondLevel = parseSubcommands cmdOutput in
           if secondLevel = [] then formatCommand displayPath cmd cmdOutput
           else concat (map (subcommandDocs host binaryPath displayPath cmd) secondLevel)))"

definition extractCommands :: "Host \<Rightarrow> string \<Rightarrow> string \<Rightarrow> string" where
  "extractCommands host binaryPath displayPath =
     (case runHelp host binaryPath [] of
        None \<Rightarrow> helpFallback displayPath
      | Some output \<Rightarrow>
          (let topLevel = parseSubcommands output in
           if topLevel = [] then helpFallback displayPath
           else (let b = concat (map (commandDocs host binaryPath displayPath) topLevel) in
                 if b = [] then helpFallback displayPath else b)))"

text \<open>\<open>replacePlaceholders\<close> replaces template placeholders.\<close>

definition replacePlaceholders :: "Host \<Rightarrow> Model \<Rightarrow> Manifest \<Rightarrow> string \<Rightarrow> string" where
  "replacePlaceholders host m sk content =
     (let content = Replace content ''{{SKILL_PATH}}'' (getDeployPath m) (- 1);
          content =
            (case configValues m ''PROJECT_IDS'' of
               None \<Rightarrow> Replace content ''{{PROJECT_IDS_TABLE}}'' ''No project IDs configured.'' 1
             | Some projectIDs \<Rightarrow>
                 if projectIDs \<noteq> []
                 then Replace content ''{{PROJECT_IDS_TABLE}}'' (generateProjectIDsTable projectIDs) 1
                 else Replace content ''{{PROJECT_IDS_TABLE}}'' ''No project IDs configured.'' 1);
          distDir = pathJoin [projectRoot m, ''dist''];
          binaryPath = pathJoin [distDir, binaryName sk];
          deployedBinaryPath = pathJoin [getDeployPath m, ''bin'', binaryName sk];
          commands = extractCommands host binaryPath deployedBinaryPath
      in Replace content ''{{COMMANDS}}'' commands 1)"

text \<open>
  \<open>generateSkillDocs\<close> generates the SKILL.md file.  The result is the error, if any, and
  the file system afterwards.
\<close>

definition skillDocsContent :: "Host \<Rightarrow> fsys \<Rightarrow> Model \<Rightarrow> Manifest \<Rightarrow> string" where
  "skillDocsContent host fs m sk =
     generateFrontmatter host sk @
     (case fs (pathJoin [Path sk, DocsTemplate sk]) of
        None \<Rightarrow> generateBasicDocs sk
      | Some (templateData, _) \<Rightarrow> replacePlaceholders host m sk (stripFrontmatter templateData))"

definition generateSkillDocs :: "Host \<Rightarrow> Model \<Rightarrow> fsys \<Rightarrow> string option \<times> fsys" where
  "generateSkillDocs host m fs =
     (case selectedSkill m of
        None \<Rightarrow> (Some ''no skill selected'', fs)
      | Some sk \<Rightarrow>
          (case WriteFile host fs (pathJoin [getDeployPath m, ''SKILL.md''])
                  (skillDocsContent host fs m sk) (octal 6 4 4) of
             None \<Rightarrow> (Some ''write failed'', fs)
           | Some fs' \<Rightarrow> (None, fs')))"

text \<open>
  \<open>deploySkill\<close> deploys the built skill to the configured path: the task's completion
  message and the file system afterwards.  The errors carry the text the source puts
  before the operating system's own message.  Directories are not part of the file system
  model, so \<open>os.MkdirAll\<close>, whose result the source ignores, has no effect on it.
\<close>

definition deploySkill :: "Host \<Rightarrow> Model \<Rightarrow> fsys \<Rightarrow> Msg \<times> fsys" where
  "deploySkill host m fs =
     (case selectedSkill m of
        None \<Rightarrow> (deployCompleteMsg (Some ''no skill selected''), fs)
      | Some sk \<Rightarrow>
          (let deployPath = getDeployPath m in
           if deployPath = [] then (deployCompleteMsg (Some ''deploy path not configured''), fs)
           else
             (let distDir = pathJoin [projectRoot m, ''dist''];
                  srcBinary = pathJoin [distDir, binaryName sk];
                  dstBinDir = pathJoin [deployPath, ''bin''];
                  dstBinary = pathJoin [dstBinDir, binaryName sk]
              in case fs srcBinary of
                   None \<Rightarrow> (deployCompleteMsg (Some ''failed to read binary''), fs)
                 | Some (binaryData, _) \<Rightarrow>
                     (let fs1 = fs(dstBinary := None) in
                      case WriteFile host fs1 dstBinary binaryData (octal 7 5 5) of
                        None \<Rightarrow> (deployCompleteMsg (Some ''failed to write binary''), fs1)
                      | Some fs2 \<Rightarrow>
                          (case WriteFile host fs2 (pathJoin [dstBinDir, ''.env''])
                                  (generateEnvFile m sk) (octal 6 0 0) of
                             None \<Rightarrow> (deployCompleteMsg (Some ''failed to write .env''), fs2)
                           | Some fs3 \<Rightarrow>
                               (case generateSkillDocs host m fs3 of
                                  (Some err, fs4) \<Rightarrow>
                                    (deployCompleteMsg (Some (''failed to generate docs: '' @ err)),
                                     fs4)
                                | (None, fs4) \<Rightarrow>
                                    (deployCompleteMsg None, RemoveAll fs4 distDir)))))))"

section \<open>The confirmation view\<close>

text \<open>
  \<open>renderConfirm\<close> writes, under \<open>Environment:\<close>, one row per variable of the selected
  skill: its label and the value \<open>confirmValue\<close>, which for the type \<open>secret\<close> is cut
  after 8 bytes when it is longer.  A key that is not in the map reads as the empty string.
\<close>

definition confirmValue :: "(string \<rightharpoonup> string) \<Rightarrow> Variable \<Rightarrow> string" where
  "confirmValue cv v =
     (let val = (case cv (VarName v) of None \<Rightarrow> [] | Some x \<Rightarrow> x) in
      if VarType v = ''secret'' \<and> 8 < length val then take 8 val @ ''...'' else val)"

definition confirmEnvironment :: "Model \<Rightarrow> (string \<times> string) list" where
  "confirmEnvironment m =
     (case selectedSkill m of
        None \<Rightarrow> []
      | Some sk \<Rightarrow> map (\<lambda>v. (VarLabel v @ '':'', confirmValue (configValues m) v)) (Variables sk))"

section \<open>The specification's wording, and example data\<close>

text \<open>
  Header stripping as the specification words it, on lines: a template whose first line is
  three dashes and which has a later line of three dashes loses its lines up to and
  including that later line; any other template is returned as it is.
\<close>

definition stripHeaderSpec :: "string \<Rightarrow> string" where
  "stripHeaderSpec t =
     (case SplitLines t of
        [] \<Rightarrow> t
      | first # rest \<Rightarrow>
          if first = ''---'' \<and> ''---'' \<in> set rest
          then Join (tl (dropWhile (\<lambda>l. l \<noteq> ''---'') rest)) [NL]
          else t)"

text \<open>The synthetic help text of a leaf command.\<close>

definition leafHelp :: string where
  "leafHelp = ''Usage:'' @ [NL] @ ''  prog sub [flags]'' @ [NL, NL] @ ''Flags:'' @ [NL]
     @ ''  -t, --title string   Task title (required)'' @ [NL]"

text \<open>
  \<open>missing\<close> is the test of \<open>validateConfigInputs\<close> on a variable and its input: the
  variable is required and the input is empty.
\<close>

definition missing :: "Variable \<times> textinput \<Rightarrow> bool" where
  "missing p = (VarRequired (fst p) \<and> tiValue (snd p) = [])"

text \<open>
  A skill with one required secret variable and one optional text variable.
\<close>

definition demoSkill :: Manifest where
  "demoSkill =
     \<lparr>Name = ''demo'', Description = ''Demo skill'', Path = ''/src/skills/demo'',
      Variables =
        [\<lparr>VarName = ''API_TOKEN'', VarLabel = ''API Token'', VarPlaceholder = [],
          VarDefault = [], VarRequired = True, VarType = ''secret''\<rparr>,
         \<lparr>VarName = ''BASE_URL'', VarLabel = ''Base URL'', VarPlaceholder = [],
          VarDefault = ''https://example.org'', VarRequired = False, VarType = ''text''\<rparr>],
      BuildBinary = [], DocsTemplate = ''SKILL.template.md''\<rparr>"

text \<open>A skill without variables, and the wizard in its config view for that skill.\<close>

definition noVarSkill :: Manifest where
  "noVarSkill =
     \<lparr>Name = ''plain'', Description = ''Skill without variables'', Path = ''/src/skills/plain'',
      Variables = [], BuildBinary = ''plain'', DocsTemplate = ''SKILL.template.md''\<rparr>"

definition noVarConfig :: Model where
  "noVarConfig =
     (NewModel ''/src'' ''1.0'' [noVarSkill] [])
       \<lparr>selectedSkill := Some noVarSkill, currentView := ViewConfig\<rparr>"


text \<open>The wizard in its confirm and done views for the demo skill.\<close>

definition demoConfirm :: Model where
  "demoConfirm =
     (NewModel ''/src'' ''1.0'' [demoSkill] [])
       \<lparr>currentView := ViewConfirm, selectedSkill := Some demoSkill,
        skillsFolder := ''/home/u/.claude/skills/'', skillFolderName := ''demo''\<rparr>"

definition demoDone :: Model where
  "demoDone =
     (NewModel ''/src'' ''1.0'' [demoSkill] [])
       \<lparr>currentView := ViewDone, selectedSkill := Some demoSkill,
        configValues := [''API_TOKEN'' \<mapsto> ''t0k''],
        statusMsg := ''Skill deployed successfully!''\<rparr>"

definition demoList :: Model where
  "demoList = demoDone\<lparr>currentView := ViewSkillList, errorMsg := [], statusMsg := [],
                        buildOutput := []\<rparr>"

text \<open>
  A run of the event loop: the messages are handled one after the other, each with the
  file system of its moment; a panic ends the run.
\<close>

fun runMsgs :: "Widget \<Rightarrow> Model \<Rightarrow> (fsys \<times> Msg) list \<Rightarrow> panic + Model" where
  "runMsgs lib m [] = Inr m"
| "runMsgs lib m ((fs, msg) # rest) =
     (case Update lib fs m msg of
        Inl e \<Rightarrow> Inl e
      | Inr (m', cmd) \<Rightarrow> runMsgs lib m' rest)"

text \<open>\<open>keepsConfig m r\<close>: the result \<open>r\<close> of a handler on \<open>m\<close> has the configuration map of \<open>m\<close>.\<close>

definition keepsConfig :: "Model \<Rightarrow> panic + Model \<times> Cmd \<Rightarrow> bool" where
  "keepsConfig m r = (case r of Inl e \<Rightarrow> True | Inr p \<Rightarrow> configValues (fst p) = configValues m)"

text \<open>
  The environment file as the specification words it: \<open>configured\<close> holds of a variable
  whose configured value is non-empty, and \<open>keyValueLine\<close> is its \<open>KEY=VALUE\<close> line.
\<close>

definition configured :: "(string \<rightharpoonup> string) \<Rightarrow> Variable \<Rightarrow> bool" where
  "configured cv v = (case cv (VarName v) of None \<Rightarrow> False | Some val \<Rightarrow> val \<noteq> [])"



text \<open>
  The help texts of a small command-line tool: at the top level the commands \<open>add\<close>,
  \<open>list\<close> and \<open>task\<close> beside the two reserved names; \<open>task\<close> has the sub-commands
  \<open>new\<close> and \<open>rm\<close>.  Asking \<open>add\<close> or \<open>task rm\<close> for help fails.
\<close>

definition demoTopHelp :: string where
  "demoTopHelp = ''Demo tool'' @ [NL, NL] @ ''Available Commands:'' @ [NL]
     @ ''  add         Add an item'' @ [NL]
     @ ''  completion  Generate the autocompletion script'' @ [NL]
     @ ''  help        Help about any command'' @ [NL]
     @ ''  list        List items'' @ [NL]
     @ ''  task        Manage tasks'' @ [NL]"

definition demoListHelp :: string where
  "demoListHelp = ''List items'' @ [NL, NL] @ ''Usage:'' @ [NL] @ ''  demo list [flags]'' @ [NL]"

definition demoTaskHelp :: string where
  "demoTaskHelp = ''Manage tasks'' @ [NL, NL] @ ''Available Commands:'' @ [NL]
     @ ''  new   Create a task'' @ [NL] @ ''  rm    Remove a task'' @ [NL]"

definition demoNewHelp :: string where
  "demoNewHelp = ''Create a task'' @ [NL, NL] @ ''Usage:'' @ [NL] @ ''  demo task new [flags]''
     @ [NL, NL] @ ''Flags:'' @ [NL] @ ''  -h, --help           help for new'' @ [NL]
     @ ''  -t, --title string   Task title (required)'' @ [NL]"

definition demoHelp :: "string \<Rightarrow> string list \<Rightarrow> string option" where
  "demoHelp binaryPath args =
     (if args = [] then Some demoTopHelp
      else if args = [''list''] then Some demoListHelp
      else if args = [''task''] then Some demoTaskHelp
      else if args = [''task'', ''new''] then Some demoNewHelp
      else None)"

definition demoHost :: Host where
  "demoHost = \<lparr>runHelp = demoHelp, writeFails = (\<lambda>p. False), umask = octal 0 2 2,
                GetSkillDescription = Description\<rparr>"

text \<open>
  A file system with the demo skill's template and its built binary, and the wizard with
  the demo skill configured and a deploy target chosen.
\<close>

definition demoFiles :: fsys where
  "demoFiles =
     [''/src/skills/demo/SKILL.template.md'' \<mapsto>
        (''---'' @ [NL] @ ''name: old'' @ [NL] @ ''---'' @ [NL, NL] @ ''# Demo'' @ [NL, NL]
         @ ''Base directory: {{SKILL_PATH}}'' @ [NL, NL] @ ''{{COMMANDS}}'', octal 6 4 4),
      ''/src/dist/demo'' \<mapsto> (''ELF'', octal 7 5 5)]"

definition demoReady :: Model where
  "demoReady = demoConfirm\<lparr>configValues := [''API_TOKEN'' \<mapsto> ''t0k'', ''BASE_URL'' \<mapsto> []]\<rparr>"

text \<open>
  \<open>resultSat P r\<close>: the result \<open>r\<close> of a handler is a panic or a model that satisfies \<open>P\<close>.
\<close>

definition resultSat :: "(Model \<Rightarrow> bool) \<Rightarrow> panic + Model \<times> Cmd \<Rightarrow> bool" where
  "resultSat P r = (case r of Inl e \<Rightarrow> True | Inr p \<Rightarrow> P (fst p))"

text \<open>
  The invariant of the wizard.  The cursor is not negative.  From the config view to the
  overwrite view a skill is selected and there is one input per variable; in the config
  view the focus is on one of the inputs, if there are any; from the deploy view on there
  are the two deploy inputs, in the deploy view with the focus on one of them; in the
  confirm and overwrite views the saved folder and name are not empty.
\<close>

definition inputsMatch :: "Manifest option \<Rightarrow> textinput list \<Rightarrow> bool" where
  "inputsMatch sel inputs =
     (case sel of None \<Rightarrow> False | Some sk \<Rightarrow> length inputs = length (Variables sk))"

definition focusOk :: "int \<Rightarrow> textinput list \<Rightarrow> bool" where
  "focusOk f inputs = (0 \<le> f \<and> (inputs = [] \<or> f < int (length inputs)))"

definition inFlow :: "View \<Rightarrow> bool" where
  "inFlow v = (v = ViewConfig \<or> v = ViewDeploy \<or> v = ViewConfirm \<or> v = ViewOverwrite)"

definition hasTarget :: "View \<Rightarrow> bool" where
  "hasTarget v = (v = ViewConfirm \<or> v = ViewOverwrite)"

definition wizardInv :: "Model \<Rightarrow> bool" where
  "wizardInv m =
     (0 \<le> skillCursor m
      \<and> (inFlow (currentView m) \<longrightarrow> inputsMatch (selectedSkill m) (configInputs m))
      \<and> (currentView m = ViewConfig \<longrightarrow> focusOk (configFocus m) (configInputs m))
      \<and> (inFlow (currentView m) \<and> currentView m \<noteq> ViewConfig \<longrightarrow> length (deployInputs m) = 2)
      \<and> (currentView m = ViewDeploy \<longrightarrow> 0 \<le> deployFocus m \<and> deployFocus m < 2)
      \<and> (hasTarget (currentView m) \<longrightarrow> skillsFolder m \<noteq> [] \<and> skillFolderName m \<noteq> []))"

text \<open>
  Two example widgets.  Both hold a value that is set as it is, cut at the character limit
  when it is longer.  The first appends the key of a key message to the focused field, the
  second ignores every message.  Then runs of the wizard for the demo skill from its start:
  selecting the skill, typing a token, advancing to the deploy view, typing a folder,
  advancing to the confirm view; with the states they reach.
\<close>

definition typeKey :: "Msg \<Rightarrow> textinput \<Rightarrow> textinput" where
  "typeKey msg ti =
     (case msg of
        KeyMsg key \<Rightarrow> if focus ti then ti\<lparr>tiValue := tiValue ti @ key\<rparr> else ti
      | _ \<Rightarrow> ti)"

definition cutAtLimit :: "nat \<Rightarrow> string \<Rightarrow> string" where
  "cutAtLimit limit s = (if 0 < limit \<and> limit < length s then take limit s else s)"

definition demoWidget :: Widget where
  "demoWidget = \<lparr>widgetUpdate = typeKey, widgetSetValue = cutAtLimit\<rparr>"

definition idleWidget :: Widget where
  "idleWidget = \<lparr>widgetUpdate = (\<lambda>msg ti. ti), widgetSetValue = cutAtLimit\<rparr>"

definition demoStart :: Model where
  "demoStart = NewModel ''/src'' ''1.0'' [demoSkill] []"

definition demoConfigRun :: "(fsys \<times> Msg) list" where
  "demoConfigRun = [(Map.empty, KeyMsg ''enter'')]"

definition demoTypedRun :: "(fsys \<times> Msg) list" where
  "demoTypedRun = [(Map.empty, KeyMsg ''enter''), (Map.empty, KeyMsg ''t'')]"

definition demoDeployRun :: "(fsys \<times> Msg) list" where
  "demoDeployRun = demoTypedRun @ [(Map.empty, KeyMsg ''enter''), (Map.empty, KeyMsg ''/''),
                                   (Map.empty, KeyMsg ''s'')]"

definition demoConfirmRun :: "(fsys \<times> Msg) list" where
  "demoConfirmRun = demoDeployRun @ [(Map.empty, KeyMsg ''enter'')]"

definition demoConfigEmpty :: Model where
  "demoConfigEmpty =
     setupInputsFromManifest demoWidget
       (demoStart\<lparr>selectedSkill := Some demoSkill, selectedError := None,
                   currentView := ViewConfig\<rparr>)"

definition demoConfigTyped :: Model where
  "demoConfigTyped =
     demoConfigEmpty\<lparr>configInputs := map (typeKey (KeyMsg ''t'')) (configInputs demoConfigEmpty)\<rparr>"

definition demoDeployEmpty :: Model where
  "demoDeployEmpty =
     (setupDeployInputs demoWidget
        (demoConfigTyped\<lparr>errorMsg := [],
           configValues := [''API_TOKEN'' \<mapsto> ''t'', ''BASE_URL'' \<mapsto> []]\<rparr>))
     \<lparr>currentView := ViewDeploy\<rparr>"

definition demoDeployTyped :: Model where
  "demoDeployTyped =
     demoDeployEmpty\<lparr>deployInputs :=
        map (typeKey (KeyMsg ''s'')) (map (typeKey (KeyMsg ''/'')) (deployInputs demoDeployEmpty))\<rparr>"

definition demoConfirmed :: Model where
  "demoConfirmed =
     demoDeployTyped\<lparr>errorMsg := [], skillsFolder := ''/s'', skillFolderName := ''demo'',
                      currentView := ViewConfirm\<rparr>"

section \<open>Properties of header stripping and of the help-text parser\<close>

lemma Contains_Cons: "Contains (c # cs) sub = (HasPrefix (c # cs) sub \<or> Contains cs sub)"
  by (auto simp: Contains_def Let_def)

text \<open>
  When \<open>sub\<close> does not begin anywhere inside \<open>h\<close>, its first occurrence in
  \<open>h @ sub @ r\<close> is the one after \<open>h\<close>.
\<close>

lemma Index_closing:
  assumes "sub \<noteq> []"
  shows "\<not> Contains (h @ butlast sub) sub \<Longrightarrow> Index (h @ sub @ r) sub = int (length h)"
proof (induction h)
  case Nil
  from assms show ?case by (cases sub) (simp_all add: HasPrefix_def)
next
  case (Cons c h)
  from Cons.prems have np: "\<not> HasPrefix (c # h @ butlast sub) sub"
    and nc: "\<not> Contains (h @ butlast sub) sub"
    by (simp_all add: Contains_Cons)
  have "c # h @ sub @ r = (c # h @ butlast sub) @ (last sub # r)"
    using assms by simp
  moreover have "length sub \<le> length (c # h @ butlast sub)"
    by simp
  ultimately have "take (length sub) (c # h @ sub @ r) = take (length sub) (c # h @ butlast sub)"
    by (metis append_Nil2 diff_is_0_eq take_0 take_append)
  with np have "\<not> HasPrefix (c # h @ sub @ r) sub"
    by (simp add: HasPrefix_def)
  with Cons.IH[OF nc] show ?case by (simp add: Let_def)
qed

text \<open>
  Header lines that hold no three dashes in a row and end in a newline cannot form three
  dashes together with the first two dashes of the closing delimiter.
\<close>

lemma no_dashes_before_closing:
  "\<not> Contains hb ''---'' \<Longrightarrow> hb = [] \<or> last hb = NL \<Longrightarrow> \<not> Contains (hb @ ''--'') ''---''"
proof (induction hb)
  case Nil
  show ?case by (simp add: Contains_def HasPrefix_def Let_def)
next
  case (Cons c hb)
  from Cons.prems have np: "\<not> HasPrefix (c # hb) ''---''" and nc: "\<not> Contains hb ''---''"
    by (simp_all add: Contains_Cons)
  from Cons.prems have l: "hb = [] \<or> last hb = NL" by (auto split: if_splits)
  have "\<not> HasPrefix (c # hb @ ''--'') ''---''"
  proof (cases hb)
    case Nil
    with Cons.prems show ?thesis by (simp add: HasPrefix_def)
  next
    case (Cons a hb')
    show ?thesis
    proof (cases hb')
      case Nil
      with Cons l show ?thesis by (simp add: HasPrefix_def)
    next
      case (Cons b hb'')
      with \<open>hb = a # hb'\<close> np show ?thesis by (simp add: HasPrefix_def)
    qed
  qed
  with Cons.IH[OF nc l] show ?case by (simp add: Contains_Cons)
qed

lemma strip_header:
  assumes "\<not> Contains hb ''---''" "hb = [] \<or> last hb = NL"
  shows "stripFrontmatter (''---'' @ NL # hb @ ''---'' @ r) = dropWhile (\<lambda>c. c = NL) r"
proof -
  define d where "d = ''---''"
  define h where "h = NL # hb"
  define t where "t = d @ h @ d @ r"
  have len: "length d = 3" and ne: "d \<noteq> []" by (simp_all add: d_def)
  have "\<not> Contains (h @ ''--'') ''---''"
    using no_dashes_before_closing[OF assms] by (simp add: h_def Contains_Cons HasPrefix_def)
  then have "\<not> Contains (h @ butlast d) d" by (simp add: d_def)
  from Index_closing[OF ne this]
  have idx: "Index (h @ d @ r) d = int (length h)" .
  have pre: "HasPrefix t d" by (simp add: t_def HasPrefix_def)
  have rest: "drop 3 t = h @ d @ r" by (simp add: t_def len)
  have "stripFrontmatter t =
          (if \<not> HasPrefix t d then t
           else (let rest = drop 3 t; idx = Index rest d in
             if idx = - 1 then t else TrimLeft (drop (nat (idx + 3)) rest) [NL]))"
    by (simp add: stripFrontmatter_def d_def)
  then have "stripFrontmatter t = TrimLeft (drop (nat (int (length h) + 3)) (h @ d @ r)) [NL]"
    by (simp add: Let_def pre rest idx)
  also have "drop (nat (int (length h) + 3)) (h @ d @ r) = r"
    by (simp add: nat_add_distrib len)
  finally show ?thesis by (simp add: t_def h_def d_def TrimLeft_def)
qed

text \<open>
  Claim C5, as the code has it.  A template that does not start with three dashes, or in
  which no further three dashes follow them, is returned verbatim.  A template that starts
  with a line of three dashes, then header lines in which no three dashes occur in a row,
  then three dashes, loses that header and also every newline that directly follows it;
  the rest is returned unchanged.
\<close>

theorem stripFrontmatter_removes_header:
  "(\<not> HasPrefix t ''---'' \<longrightarrow> stripFrontmatter t = t)
   \<and> (Index (drop 3 t) ''---'' = - 1 \<longrightarrow> stripFrontmatter t = t)
   \<and> (\<not> Contains hb ''---'' \<and> (hb = [] \<or> last hb = NL) \<longrightarrow>
        stripFrontmatter (''---'' @ NL # hb @ ''---'' @ r) = dropWhile (\<lambda>c. c = NL) r)"
  using strip_header [of hb r] by (simp add: stripFrontmatter_def Let_def)

theorem stripFrontmatter_removes_header_witness:
  "stripFrontmatter ''# Title'' = ''# Title''
   \<and> stripFrontmatter ''--- no closing'' = ''--- no closing''
   \<and> stripFrontmatter (''---'' @ NL # (''name: x'' @ [NL]) @ ''---'' @ (NL # NL # ''body''))
       = ''body''"
  using stripFrontmatter_removes_header [of "''# Title''" "''name: x'' @ [NL]" "NL # NL # ''body''"]
    stripFrontmatter_removes_header [of "''--- no closing''" "[]" "[]"]
  by (simp add: HasPrefix_def Contains_def Let_def)

text \<open>
  The claim as the specification words it fails: three dashes inside a header line end the
  header early, blank lines after the header are removed from the remainder, and a template
  that merely starts with three dashes, without a header line, is cut.
\<close>

theorem stripFrontmatter_counterexample:
  "stripHeaderSpec (''---'' @ [NL] @ ''title: a---b'' @ [NL] @ ''---'' @ [NL] @ ''body'') = ''body''
   \<and> stripFrontmatter (''---'' @ [NL] @ ''title: a---b'' @ [NL] @ ''---'' @ [NL] @ ''body'')
       = ''b'' @ [NL] @ ''---'' @ [NL] @ ''body''
   \<and> stripHeaderSpec (''---'' @ [NL] @ ''name: x'' @ [NL] @ ''---'' @ [NL, NL] @ ''body'')
       = NL # ''body''
   \<and> stripFrontmatter (''---'' @ [NL] @ ''name: x'' @ [NL] @ ''---'' @ [NL, NL] @ ''body'')
       = ''body''
   \<and> stripHeaderSpec ''---abc---def'' = ''---abc---def''
   \<and> stripFrontmatter ''---abc---def'' = ''def''"
  by (simp add: stripHeaderSpec_def SplitLines_def stripFrontmatter_def HasPrefix_def
      TrimLeft_def Let_def)

text \<open>
  Claim C6.  For the synthetic leaf help text the parser finds no sub-commands (the command
  is a leaf), the usage \<open>sub [flags]\<close> with the program name stripped, and one flag, whose
  parts are the name pair \<open>-t, --title\<close>, the type \<open>string\<close> and the description
  \<open>Task title (required)\<close>.
\<close>

theorem leaf_help_introspection:
  "parseSubcommands leafHelp = []
   \<and> parseUsage leafHelp = ''sub [flags]''
   \<and> parseFlags leafHelp = [''`-t, --title` (string): Task title (required)'']
   \<and> flagParts (Fields (TrimSpace ''  -t, --title string   Task title (required)''))
       = (''-t, --title'', ''string'', [''Task'', ''title'', ''(required)''])
   \<and> Join [''Task'', ''title'', ''(required)''] '' '' = ''Task title (required)''"
  by code_simp

section \<open>Properties of the wizard\<close>

lemma validateVariables_enough:
  "i + length vs \<le> length inputs \<Longrightarrow>
   validateVariables vs inputs i =
     Inr (map_option (\<lambda>p. VarLabel (fst p) @ '' is required'')
            (find missing (zip vs (drop i inputs))))"
proof (induction vs arbitrary: i)
  case Nil
  show ?case by simp
next
  case (Cons v vs)
  from Cons.prems have i: "i < length inputs" and rest: "Suc i + length vs \<le> length inputs"
    by simp_all
  from i have d: "drop i inputs = inputs ! i # drop (Suc i) inputs"
    by (simp add: Cons_nth_drop_Suc)
  show ?case using Cons.IH[OF rest] i by (simp add: d missing_def)
qed

lemma saveVariables_enough:
  "i + length vs \<le> length inputs \<Longrightarrow>
   saveVariables vs inputs i cv =
     Inr (cv ++ map_of (rev (zip (map VarName vs) (map tiValue (drop i inputs)))))"
proof (induction vs arbitrary: i cv)
  case Nil
  show ?case by simp
next
  case (Cons v vs)
  from Cons.prems have i: "i < length inputs" and rest: "Suc i + length vs \<le> length inputs"
    by simp_all
  from i have d: "drop i inputs = inputs ! i # drop (Suc i) inputs"
    by (simp add: Cons_nth_drop_Suc)
  have "saveVariables (v # vs) inputs i cv
          = saveVariables vs inputs (Suc i) (cv(VarName v \<mapsto> tiValue (inputs ! i)))"
    using i by simp
  also have "\<dots> = Inr (cv(VarName v \<mapsto> tiValue (inputs ! i))
                      ++ map_of (rev (zip (map VarName vs) (map tiValue (drop (Suc i) inputs)))))"
    by (rule Cons.IH[OF rest])
  also have "cv(VarName v \<mapsto> tiValue (inputs ! i))
               ++ map_of (rev (zip (map VarName vs) (map tiValue (drop (Suc i) inputs))))
             = cv ++ map_of (rev (zip (map VarName (v # vs)) (map tiValue (drop i inputs))))"
    by (rule ext) (simp add: d map_add_def split: option.splits)
  finally show ?case .
qed

lemma map_of_rev_zip_last:
  "length ns = length xs \<Longrightarrow> i < length ns \<Longrightarrow>
   \<forall>j. i < j \<and> j < length ns \<longrightarrow> ns ! j \<noteq> ns ! i \<Longrightarrow>
   map_of (rev (zip ns xs)) (ns ! i) = Some (xs ! i)"
proof (induction ns xs arbitrary: i rule: list_induct2)
  case Nil
  then show ?case by simp
next
  case (Cons n ns x xs)
  show ?case
  proof (cases i)
    case 0
    have "n \<notin> set ns"
    proof
      assume "n \<in> set ns"
      then obtain j where "j < length ns" "ns ! j = n" by (auto simp: in_set_conv_nth)
      with Cons.prems(2)[rule_format, of "Suc j"] 0 show False by simp
    qed
    then have "map_of (rev (zip ns xs)) n = None"
      using Cons.hyps by (simp add: map_of_eq_None_iff image_iff) (metis in_set_zipE prod.collapse)
    with 0 show ?thesis by (simp add: map_add_def)
  next
    case (Suc i')
    with Cons.prems have "i' < length ns" and
      "\<forall>j. i' < j \<and> j < length ns \<longrightarrow> ns ! j \<noteq> ns ! i'"
      by (auto dest: spec[of _ "Suc _"])
    from Cons.IH[OF this] Suc show ?thesis by (simp add: map_add_def)
  qed
qed


lemma setupDeployInputs_keeps [simp]:
  "configValues (setupDeployInputs lib m) = configValues m"
  "errorMsg (setupDeployInputs lib m) = errorMsg m"
  "selectedSkill (setupDeployInputs lib m) = selectedSkill m"
  "currentView (setupDeployInputs lib m) = currentView m"
  by (simp_all add: setupDeployInputs_def Let_def)

lemma updateConfigView_advance:
  assumes sel: "selectedSkill m = Some sk"
    and len: "length (configInputs m) = length (Variables sk)"
    and key: "key = ''enter'' \<or> key = ''ctrl+d''"
  shows "updateConfigView lib m key =
    (case find missing (zip (Variables sk) (configInputs m)) of
       Some p \<Rightarrow> Inr (m\<lparr>errorMsg := VarLabel (fst p) @ '' is required''\<rparr>, Blink)
     | None \<Rightarrow>
         Inr ((setupDeployInputs lib
                (m\<lparr>errorMsg := [],
                   configValues := configValues m ++
                     map_of (rev (zip (map VarName (Variables sk))
                                      (map tiValue (configInputs m))))\<rparr>))
              \<lparr>currentView := ViewDeploy\<rparr>, Blink))"
proof -
  have v: "validateVariables (Variables sk) (configInputs m) 0 =
     Inr (map_option (\<lambda>p. VarLabel (fst p) @ '' is required'')
            (find missing (zip (Variables sk) (configInputs m))))"
    using validateVariables_enough[of 0 "Variables sk" "configInputs m"] len by simp
  have s: "saveVariables (Variables sk) (configInputs m) 0 (configValues m) =
     Inr (configValues m ++ map_of (rev (zip (map VarName (Variables sk))
                                      (map tiValue (configInputs m)))))"
    using saveVariables_enough[of 0 "Variables sk" "configInputs m"] len by simp
  from key show ?thesis
    by (auto simp: updateConfigView_def validateConfigInputs_def saveConfigInputs_def sel v s
        split: option.splits)
qed


lemma config_advance_step:
  assumes view: "currentView m = ViewConfig"
    and sel: "selectedSkill m = Some sk"
    and len: "length (configInputs m) = length (Variables sk)"
    and key: "key = ''enter'' \<or> key = ''ctrl+d''"
  shows "\<exists>m'. Update lib fs m (KeyMsg key) = Inr (m', Blink)
    \<and> (currentView m' = ViewConfig \<or> currentView m' = ViewDeploy)
    \<and> ((currentView m' = ViewConfig) =
         (\<exists>i<length (Variables sk).
            VarRequired (Variables sk ! i) \<and> tiValue (configInputs m ! i) = []))
    \<and> (currentView m' = ViewConfig \<longrightarrow>
         (\<exists>i<length (Variables sk).
            VarRequired (Variables sk ! i) \<and> tiValue (configInputs m ! i) = []
            \<and> m' = m\<lparr>errorMsg := VarLabel (Variables sk ! i) @ '' is required''\<rparr>))
    \<and> (currentView m' = ViewDeploy \<longrightarrow>
         errorMsg m' = []
         \<and> configValues m' = configValues m ++
              map_of (rev (zip (map VarName (Variables sk)) (map tiValue (configInputs m))))
         \<and> (\<forall>i<length (Variables sk).
              (\<forall>j. i < j \<and> j < length (Variables sk) \<longrightarrow>
                   VarName (Variables sk ! j) \<noteq> VarName (Variables sk ! i)) \<longrightarrow>
              configValues m' (VarName (Variables sk ! i)) = Some (tiValue (configInputs m ! i))))"
proof -
  let ?vs = "Variables sk" and ?ins = "configInputs m"
  have upd: "Update lib fs m (KeyMsg key) = updateConfigView lib m key"
    using view key by (auto simp: Update_def)
  show ?thesis
  proof (cases "find missing (zip ?vs ?ins)")
    case None
    then have none: "\<not> (\<exists>i<length ?vs. VarRequired (?vs ! i) \<and> tiValue (?ins ! i) = [])"
      using len by (auto simp: find_None_iff missing_def in_set_zip)
    have last: "\<forall>i<length ?vs.
        (\<forall>j. i < j \<and> j < length ?vs \<longrightarrow> VarName (?vs ! j) \<noteq> VarName (?vs ! i)) \<longrightarrow>
        (configValues m ++ map_of (rev (zip (map VarName ?vs) (map tiValue ?ins))))
          (VarName (?vs ! i)) = Some (tiValue (?ins ! i))"
    proof (intro allI impI)
      fix i assume i: "i < length ?vs"
        and d: "\<forall>j. i < j \<and> j < length ?vs \<longrightarrow> VarName (?vs ! j) \<noteq> VarName (?vs ! i)"
      have "map_of (rev (zip (map VarName ?vs) (map tiValue ?ins))) (map VarName ?vs ! i)
            = Some (map tiValue ?ins ! i)"
        using i d len by (intro map_of_rev_zip_last) auto
      with i len show "(configValues m ++ map_of (rev (zip (map VarName ?vs) (map tiValue ?ins))))
          (VarName (?vs ! i)) = Some (tiValue (?ins ! i))"
        by (simp add: map_add_def)
    qed
    define m' where "m' = (setupDeployInputs lib
                (m\<lparr>errorMsg := [],
                   configValues := configValues m ++
                     map_of (rev (zip (map VarName ?vs) (map tiValue ?ins)))\<rparr>))
              \<lparr>currentView := ViewDeploy\<rparr>"
    have r: "Update lib fs m (KeyMsg key) = Inr (m', Blink)"
      by (simp add: upd updateConfigView_advance[OF sel len key] None m'_def)
    have v': "currentView m' = ViewDeploy" by (simp add: m'_def)
    have e: "errorMsg m' = []" by (simp add: m'_def)
    have c: "configValues m' = configValues m ++
               map_of (rev (zip (map VarName ?vs) (map tiValue ?ins)))"
      by (simp add: m'_def)
    from last have last': "\<forall>i<length ?vs.
        (\<forall>j. i < j \<and> j < length ?vs \<longrightarrow> VarName (?vs ! j) \<noteq> VarName (?vs ! i)) \<longrightarrow>
        configValues m' (VarName (?vs ! i)) = Some (tiValue (?ins ! i))"
      unfolding c .
    show ?thesis
      using r v' e c none last' by (intro exI[of _ m']) simp
  next
    case (Some p)
    then obtain i where i: "i < length (zip ?vs ?ins)" "missing (zip ?vs ?ins ! i)"
      "p = zip ?vs ?ins ! i"
      by (auto simp: find_Some_iff)
    with len have "i < length ?vs" "VarRequired (?vs ! i)" "tiValue (?ins ! i) = []"
      "fst p = ?vs ! i"
      by (simp_all add: missing_def)
    note f = this
    define m' where "m' = m\<lparr>errorMsg := VarLabel (?vs ! i) @ '' is required''\<rparr>"
    have r: "Update lib fs m (KeyMsg key) = Inr (m', Blink)"
      by (simp add: upd updateConfigView_advance[OF sel len key] Some m'_def f)
    have v': "currentView m' = ViewConfig" by (simp add: m'_def view)
    have ex: "\<exists>i<length ?vs. VarRequired (?vs ! i) \<and> tiValue (?ins ! i) = []
                \<and> m' = m\<lparr>errorMsg := VarLabel (?vs ! i) @ '' is required''\<rparr>"
      using f m'_def by blast
    then have ex': "\<exists>i<length ?vs. VarRequired (?vs ! i) \<and> tiValue (?ins ! i) = []"
      by blast
    show ?thesis
      using r v' ex ex' by (intro exI[of _ m']) simp
  qed
qed

text \<open>
  Claim C3 fails on the code.  Selecting a skill without variables leads to the config view
  with no inputs; there each focus-cycling key indexes the empty slice of inputs and the
  handler panics.  (Lemma \<open>Update_panics_only_without_inputs\<close> below shows that the
  wizard panics nowhere else.)
\<close>

theorem zero_variables_focus_key_panics:
  "Update idleWidget Map.empty (NewModel ''/src'' ''1.0'' [noVarSkill] []) (KeyMsg ''enter'')
     = Inr (noVarConfig, Blink)
   \<and> currentView noVarConfig = ViewConfig
   \<and> configInputs noVarConfig = []
   \<and> Update idleWidget Map.empty noVarConfig (KeyMsg ''tab'') = Inl IndexOutOfRange
   \<and> Update idleWidget Map.empty noVarConfig (KeyMsg ''down'') = Inl IndexOutOfRange
   \<and> Update idleWidget Map.empty noVarConfig (KeyMsg ''shift+tab'') = Inl IndexOutOfRange
   \<and> Update idleWidget Map.empty noVarConfig (KeyMsg ''up'') = Inl IndexOutOfRange"
  by (simp add: Update_def handleKeyPress_def handleSkillListView_def setupInputsFromManifest_def
      updateConfigView_def focusNext_def focusPrev_def blurAt_def focusFirst_def
      noVarConfig_def noVarSkill_def NewModel_def Let_def)

lemma Clean_nonempty: "Clean p \<noteq> []"
  by (simp add: Clean_def Let_def)

lemma pathJoin_nonempty: "(\<exists>e\<in>set es. e \<noteq> []) \<Longrightarrow> pathJoin es \<noteq> []"
  by (induction es) (auto simp: Clean_nonempty pathJoin.simps)

lemma getDeployPath_nonempty:
  "skillsFolder m \<noteq> [] \<or> skillFolderName m \<noteq> [] \<Longrightarrow> getDeployPath m \<noteq> []"
  unfolding getDeployPath_def by (rule pathJoin_nonempty) auto

lemma confirm_affirm_step:
  assumes view: "currentView m = ViewConfirm"
    and sel: "selectedSkill m = Some sk"
    and cfg: "skillsFolder m \<noteq> [] \<or> skillFolderName m \<noteq> []"
    and key: "key = ''enter'' \<or> key = ''y''"
  shows "getDeployPath m = pathJoin [skillsFolder m, skillFolderName m]
    \<and> Update lib fs m (KeyMsg key) =
        (if statOk fs (pathJoin [getDeployPath m, ''bin'',
                                 if BuildBinary sk = [] then Name sk else BuildBinary sk])
         then Inr (m\<lparr>currentView := ViewOverwrite\<rparr>, NoCmd)
         else Inr (m\<lparr>currentView := ViewBuilding, building := True, errorMsg := [],
                     statusMsg := []\<rparr>, startBuild))"
proof -
  have upd: "Update lib fs m (KeyMsg key) = handleConfirmView fs m key"
    using view key by (auto simp: Update_def handleKeyPress_def)
  have ex: "skillExists fs m =
      Inr (statOk fs (pathJoin [getDeployPath m, ''bin'',
                                if BuildBinary sk = [] then Name sk else BuildBinary sk]))"
    using getDeployPath_nonempty[OF cfg] by (simp add: skillExists_def sel binaryName_def)
  show ?thesis
    using key by (auto simp: upd handleConfirmView_def ex getDeployPath_def)
qed

lemma focusFirst_nth:
  "i < length inputs \<Longrightarrow> focusFirst inputs ! i = (inputs ! i)\<lparr>focus := (i = 0)\<rparr>"
  by (cases inputs; cases i) (simp_all add: focusFirst_def Blur_def Focus_def)

lemma length_focusFirst [simp]: "length (focusFirst inputs) = length inputs"
  by (cases inputs) (simp_all add: focusFirst_def)





lemma setupInputsFromManifest_keeps [simp]:
  "configValues (setupInputsFromManifest lib m) = configValues m"
  by (simp add: setupInputsFromManifest_def split: option.splits)

lemma saveVariables_grows:
  "saveVariables vs inputs i cv = Inr cv' \<Longrightarrow>
   cv' k = cv k \<or> (k \<in> VarName ` set vs \<and> cv' k \<noteq> None)"
proof (induction vs arbitrary: i cv)
  case Nil
  then show ?case by simp
next
  case (Cons v vs)
  from Cons.prems have i: "i < length inputs"
    and r: "saveVariables vs inputs (Suc i) (cv(VarName v \<mapsto> tiValue (inputs ! i))) = Inr cv'"
    by (simp_all split: if_splits)
  from Cons.IH[OF r] show ?case by (auto split: if_splits)
qed

lemma keepsConfig_simps [simp]:
  "keepsConfig m (Inl e) = True"
  "keepsConfig m (Inr (m', c)) = (configValues m' = configValues m)"
  by (simp_all add: keepsConfig_def)

lemma keepsConfigD: "keepsConfig m r \<Longrightarrow> r = Inr (m', c) \<Longrightarrow> configValues m' = configValues m"
  by simp

lemma handleSkillListView_keeps: "keepsConfig m (handleSkillListView lib m key)"
  by (simp add: handleSkillListView_def Let_def)

lemma handleConfirmView_keeps: "keepsConfig m (handleConfirmView fs m key)"
  by (simp add: handleConfirmView_def split: sum.split bool.split)

lemma handleOverwriteView_keeps: "keepsConfig m (handleOverwriteView m key)"
  by (simp add: handleOverwriteView_def)

lemma handleDoneView_keeps: "keepsConfig m (handleDoneView m key)"
  by (simp add: handleDoneView_def)

lemma handleKeyPress_keeps: "keepsConfig m (handleKeyPress lib fs m key)"
  by (simp add: handleKeyPress_def handleSkillListView_keeps handleConfirmView_keeps
      handleOverwriteView_keeps handleDoneView_keeps split: View.split)

lemma updateDeployView_keeps: "keepsConfig m (updateDeployView lib m key)"
  by (simp add: updateDeployView_def validateDeployInputs_def saveDeployInputs_def
      updateDeployInputs_def split: sum.split prod.split)


lemma updateConfigView_other_keeps:
  "\<not> (key = ''enter'' \<or> key = ''ctrl+d'') \<Longrightarrow> keepsConfig m (updateConfigView lib m key)"
  by (simp add: updateConfigView_def updateConfigInputs_def split: sum.split prod.split)

lemma updateConfigView_advance_cases:
  assumes key: "key = ''enter'' \<or> key = ''ctrl+d''"
  shows "updateConfigView lib m key =
    (case selectedSkill m of
       None \<Rightarrow> Inr (m\<lparr>errorMsg := ''No skill selected''\<rparr>, Blink)
     | Some sk \<Rightarrow>
        (case validateVariables (Variables sk) (configInputs m) 0 of
           Inl e \<Rightarrow> Inl e
         | Inr (Some err) \<Rightarrow> Inr (m\<lparr>errorMsg := err\<rparr>, Blink)
         | Inr None \<Rightarrow>
            (case saveVariables (Variables sk) (configInputs m) 0 (configValues m) of
               Inl e \<Rightarrow> Inl e
             | Inr cv \<Rightarrow>
                 Inr ((setupDeployInputs lib (m\<lparr>errorMsg := [], configValues := cv\<rparr>))
                       \<lparr>currentView := ViewDeploy\<rparr>, Blink))))"
  using key
  by (auto simp: updateConfigView_def validateConfigInputs_def saveConfigInputs_def
      split: option.split sum.split)

lemma updateConfigView_grows:
  assumes "updateConfigView lib m key = Inr (m', c)"
  shows "configValues m' k = configValues m k
     \<or> ((key = ''enter'' \<or> key = ''ctrl+d'') \<and> currentView m' = ViewDeploy
         \<and> (\<exists>sk. selectedSkill m = Some sk \<and> k \<in> VarName ` set (Variables sk))
         \<and> configValues m' k \<noteq> None)"
proof (cases "key = ''enter'' \<or> key = ''ctrl+d''")
  case False
  from keepsConfigD[OF updateConfigView_other_keeps[OF False] assms] show ?thesis by simp
next
  case True
  note adv = updateConfigView_advance_cases[OF True, of lib m]
  show ?thesis
  proof (cases "selectedSkill m")
    case None
    with adv assms show ?thesis by auto
  next
    case (Some sk)
    note sk = this
    show ?thesis
    proof (cases "validateVariables (Variables sk) (configInputs m) 0")
      case (Inl e)
      with adv sk assms show ?thesis by simp
    next
      case (Inr r)
      note v = this
      show ?thesis
      proof (cases r)
        case (Some err)
        with adv sk v assms show ?thesis by auto
      next
        case None
        note n = this
        show ?thesis
        proof (cases "saveVariables (Variables sk) (configInputs m) 0 (configValues m)")
          case (Inl e)
          with adv sk v n assms show ?thesis by simp
        next
          case (Inr cv)
          with adv sk v n assms
          have m': "m' = (setupDeployInputs lib (m\<lparr>errorMsg := [], configValues := cv\<rparr>))
                           \<lparr>currentView := ViewDeploy\<rparr>"
            by simp
          from saveVariables_grows[OF Inr, of k] m' True sk
          show ?thesis by auto
        qed
      qed
    qed
  qed
qed

lemma Update_grows:
  assumes "Update lib fs m msg = Inr (m', c)"
  shows "configValues m' k = configValues m k
     \<or> (currentView m = ViewConfig \<and> currentView m' = ViewDeploy
         \<and> (msg = KeyMsg ''enter'' \<or> msg = KeyMsg ''ctrl+d'')
         \<and> (\<exists>sk. selectedSkill m = Some sk \<and> k \<in> VarName ` set (Variables sk))
         \<and> configValues m' k \<noteq> None)"
proof (cases msg)
  case (KeyMsg key)
  show ?thesis
  proof (cases "key = ''ctrl+c''")
    case True
    with KeyMsg assms show ?thesis by (auto simp: Update_def)
  next
    case False
    note nc = this
    show ?thesis
    proof (cases "currentView m = ViewConfig")
      case True
      with nc KeyMsg assms have "updateConfigView lib m key = Inr (m', c)"
        by (simp add: Update_def)
      from updateConfigView_grows[OF this, of k] True KeyMsg show ?thesis by auto
    next
      case False
      show ?thesis
      proof (cases "currentView m = ViewDeploy")
        case True
        with nc KeyMsg assms have "updateDeployView lib m key = Inr (m', c)"
          by (simp add: Update_def)
        from keepsConfigD[OF updateDeployView_keeps this] show ?thesis by simp
      next
        case nd: False
        with nc False KeyMsg assms have "handleKeyPress lib fs m key = Inr (m', c)"
          by (simp add: Update_def)
        from keepsConfigD[OF handleKeyPress_keeps this] show ?thesis by simp
      qed
    qed
  qed
next
  case (WindowSizeMsg w h)
  with assms show ?thesis by (auto simp: Update_def)
next
  case (buildCompleteMsg out err)
  with assms show ?thesis by (auto simp: Update_def Let_def split: option.splits)
next
  case (deployCompleteMsg err)
  with assms show ?thesis by (auto simp: Update_def split: option.splits)
next
  case OtherMsg
  with assms show ?thesis by (auto simp: Update_def)
qed

lemma runMsgs_dom:
  "runMsgs lib m evs = Inr m' \<Longrightarrow> dom (configValues m) \<subseteq> dom (configValues m')"
proof (induction evs arbitrary: m)
  case Nil
  then show ?case by simp
next
  case (Cons ev evs)
  obtain fs msg where ev: "ev = (fs, msg)" by (cases ev)
  with Cons.prems obtain m1 c where u: "Update lib fs m msg = Inr (m1, c)"
    and r: "runMsgs lib m1 evs = Inr m'"
    by (auto split: sum.splits)
  have "dom (configValues m) \<subseteq> dom (configValues m1)"
  proof
    fix k assume "k \<in> dom (configValues m)"
    with Update_grows[OF u, of k] show "k \<in> dom (configValues m1)" by auto
  qed
  with Cons.IH[OF r] show ?case by blast
qed


lemma variableInput_value:
  "cv (VarName v) = Some val \<Longrightarrow> tiValue (variableInput lib cv v) = widgetSetValue lib 200 val"
  by (simp add: variableInput_def textinputNew_def SetValue_def Let_def)

lemma select_prefills:
  assumes view: "currentView m = ViewSkillList"
    and cur: "0 \<le> skillCursor m" "skillCursor m < int (length (manifests m))"
    and sk: "manifests m ! nat (skillCursor m) = sk"
    and i: "i < length (Variables sk)"
    and v: "configValues m (VarName (Variables sk ! i)) = Some v"
  shows "\<exists>m'. Update lib fs m (KeyMsg ''enter'') = Inr (m', Blink)
     \<and> currentView m' = ViewConfig \<and> selectedSkill m' = Some sk
     \<and> configValues m' = configValues m
     \<and> length (configInputs m') = length (Variables sk)
     \<and> tiValue (configInputs m' ! i) = widgetSetValue lib 200 v"
proof -
  define m' where "m' = setupInputsFromManifest lib
      (m\<lparr>selectedSkill := Some sk, selectedError := None, currentView := ViewConfig\<rparr>)"
  have u: "Update lib fs m (KeyMsg ''enter'') = Inr (m', Blink)"
    using view cur sk
    by (simp add: Update_def handleKeyPress_def handleSkillListView_def Let_def m'_def)
  have ins: "configInputs m' = focusFirst (map (variableInput lib (configValues m)) (Variables sk))"
    by (simp add: m'_def setupInputsFromManifest_def)
  have "tiValue (configInputs m' ! i) = tiValue (variableInput lib (configValues m) (Variables sk ! i))"
    using i by (simp add: ins focusFirst_nth)
  also have "\<dots> = widgetSetValue lib 200 v"
    using variableInput_value[of "configValues m" "Variables sk ! i" v lib] v by simp
  finally have val: "tiValue (configInputs m' ! i) = widgetSetValue lib 200 v" .
  have "currentView m' = ViewConfig" "selectedSkill m' = Some sk" "configValues m' = configValues m"
    "length (configInputs m') = length (Variables sk)"
    by (simp_all add: m'_def setupInputsFromManifest_def)
  with u val show ?thesis by blast
qed

text \<open>
  Claim C10.  The configuration map is keyed by variable name alone and no transition
  removes a key: over any run of the event loop the keys only grow.  A single step leaves
  each entry as it is, except that advancing from the config view overwrites the entries
  named by the selected skill's variables.  Restarting from the done view changes the view
  and the status fields only.  Selecting a skill, whichever it is, whose variable list has
  a name that is in the map pre-fills that variable's input: the text of the input is what
  the widget's \<open>SetValue\<close> makes of the saved value under the input's limit of 200
  characters.
\<close>

theorem config_values_persist:
  "(runMsgs lib m evs = Inr m' \<longrightarrow> dom (configValues m) \<subseteq> dom (configValues m'))
   \<and> (Update lib fs m msg = Inr (m1, c) \<longrightarrow>
        configValues m1 k = configValues m k
        \<or> (currentView m = ViewConfig \<and> currentView m1 = ViewDeploy
            \<and> (msg = KeyMsg ''enter'' \<or> msg = KeyMsg ''ctrl+d'')
            \<and> (\<exists>sk. selectedSkill m = Some sk \<and> k \<in> VarName ` set (Variables sk))
            \<and> configValues m1 k \<noteq> None))
   \<and> (currentView md = ViewDone \<longrightarrow>
        Update lib fs md (KeyMsg ''r'')
          = Inr (md\<lparr>currentView := ViewSkillList, errorMsg := [], statusMsg := [],
                    buildOutput := []\<rparr>, NoCmd))
   \<and> (currentView ms = ViewSkillList \<and> 0 \<le> skillCursor ms
        \<and> skillCursor ms < int (length (manifests ms))
        \<and> manifests ms ! nat (skillCursor ms) = sk \<and> i < length (Variables sk)
        \<and> configValues ms (VarName (Variables sk ! i)) = Some v \<longrightarrow>
        (\<exists>m3. Update lib fs ms (KeyMsg ''enter'') = Inr (m3, Blink)
           \<and> currentView m3 = ViewConfig \<and> selectedSkill m3 = Some sk
           \<and> configValues m3 = configValues ms
           \<and> length (configInputs m3) = length (Variables sk)
           \<and> tiValue (configInputs m3 ! i) = widgetSetValue lib 200 v))"
proof (intro conjI impI)
  assume "runMsgs lib m evs = Inr m'"
  then show "dom (configValues m) \<subseteq> dom (configValues m')" by (rule runMsgs_dom)
next
  assume "Update lib fs m msg = Inr (m1, c)"
  from Update_grows[OF this, of k]
  show "configValues m1 k = configValues m k
        \<or> (currentView m = ViewConfig \<and> currentView m1 = ViewDeploy
            \<and> (msg = KeyMsg ''enter'' \<or> msg = KeyMsg ''ctrl+d'')
            \<and> (\<exists>sk. selectedSkill m = Some sk \<and> k \<in> VarName ` set (Variables sk))
            \<and> configValues m1 k \<noteq> None)" .
next
  assume "currentView md = ViewDone"
  then show "Update lib fs md (KeyMsg ''r'')
          = Inr (md\<lparr>currentView := ViewSkillList, errorMsg := [], statusMsg := [],
                    buildOutput := []\<rparr>, NoCmd)"
    by (simp add: Update_def handleKeyPress_def handleDoneView_def)
next
  assume a: "currentView ms = ViewSkillList \<and> 0 \<le> skillCursor ms
        \<and> skillCursor ms < int (length (manifests ms))
        \<and> manifests ms ! nat (skillCursor ms) = sk \<and> i < length (Variables sk)
        \<and> configValues ms (VarName (Variables sk ! i)) = Some v"
  then show "\<exists>m3. Update lib fs ms (KeyMsg ''enter'') = Inr (m3, Blink)
           \<and> currentView m3 = ViewConfig \<and> selectedSkill m3 = Some sk
           \<and> configValues m3 = configValues ms
           \<and> length (configInputs m3) = length (Variables sk)
           \<and> tiValue (configInputs m3 ! i) = widgetSetValue lib 200 v"
    by (intro select_prefills) simp_all
qed

theorem config_values_persist_witness:
  "Update idleWidget Map.empty demoDone (KeyMsg ''r'') = Inr (demoList, NoCmd)
   \<and> configValues demoList ''API_TOKEN'' = Some ''t0k''
   \<and> (\<exists>m3. runMsgs idleWidget demoDone
               [(Map.empty, KeyMsg ''r''), (Map.empty, KeyMsg ''enter'')] = Inr m3
          \<and> dom (configValues demoDone) \<subseteq> dom (configValues m3)
          \<and> currentView m3 = ViewConfig
          \<and> tiValue (configInputs m3 ! 0) = ''t0k'')"
proof -
  have d: "currentView demoDone = ViewDone" by (simp add: demoDone_def)
  have l: "currentView demoList = ViewSkillList \<and> 0 \<le> skillCursor demoList
        \<and> skillCursor demoList < int (length (manifests demoList))
        \<and> manifests demoList ! nat (skillCursor demoList) = demoSkill
        \<and> 0 < length (Variables demoSkill)
        \<and> configValues demoList (VarName (Variables demoSkill ! 0)) = Some ''t0k''"
    by (simp add: demoList_def demoDone_def NewModel_def demoSkill_def)
  note t = config_values_persist [where lib = idleWidget and fs = Map.empty and md = demoDone
      and ms = demoList and sk = demoSkill and i = 0 and v = "''t0k''" and m = demoDone
      and evs = "[(Map.empty, KeyMsg ''r''), (Map.empty, KeyMsg ''enter'')]"
      and msg = "KeyMsg ''r''" and k = "''API_TOKEN''" and ?m1.0 = demoList and c = NoCmd]
  note t3 = t [THEN conjunct2, THEN conjunct2, THEN conjunct1]
  note t4 = t [THEN conjunct2, THEN conjunct2, THEN conjunct2]
  from mp [OF t3 d] have r: "Update idleWidget Map.empty demoDone (KeyMsg ''r'') = Inr (demoList, NoCmd)"
    by (simp add: demoList_def)
  from mp [OF t4 l] obtain m3
    where s: "Update idleWidget Map.empty demoList (KeyMsg ''enter'') = Inr (m3, Blink)"
    and v3: "currentView m3 = ViewConfig" and i3: "tiValue (configInputs m3 ! 0) = ''t0k''"
    by (elim exE conjE) (simp add: idleWidget_def cutAtLimit_def)
  from r s have run: "runMsgs idleWidget demoDone
               [(Map.empty, KeyMsg ''r''), (Map.empty, KeyMsg ''enter'')] = Inr m3"
    by simp
  from mp [OF t [where m' = m3, THEN conjunct1] run]
  have "dom (configValues demoDone) \<subseteq> dom (configValues m3)" .
  moreover have "configValues demoList ''API_TOKEN'' = Some ''t0k''"
    by (simp add: demoList_def demoDone_def)
  ultimately show ?thesis using r run v3 i3 by blast
qed

section \<open>The invariant of the wizard, and the claims about reachable states\<close>



lemma inFlow_simps [simp]:
  "inFlow ViewConfig" "inFlow ViewDeploy" "inFlow ViewConfirm" "inFlow ViewOverwrite"
  "\<not> inFlow ViewSkillList" "\<not> inFlow ViewBuilding" "\<not> inFlow ViewDone"
  by (simp_all add: inFlow_def)

lemma hasTarget_simps [simp]:
  "hasTarget ViewConfirm" "hasTarget ViewOverwrite"
  "\<not> hasTarget ViewConfig" "\<not> hasTarget ViewDeploy"
  "\<not> hasTarget ViewSkillList" "\<not> hasTarget ViewBuilding" "\<not> hasTarget ViewDone"
  by (simp_all add: hasTarget_def)

lemma inputsMatch_length:
  "length inputs' = length inputs \<Longrightarrow> inputsMatch sel inputs' = inputsMatch sel inputs"
  by (simp add: inputsMatch_def split: option.splits)

lemma blurAt_length: "blurAt inputs i = Inr inputs' \<Longrightarrow> length inputs' = length inputs"
  by (auto simp: blurAt_def split: if_splits)

lemma focusAt_length: "focusAt inputs i = Inr inputs' \<Longrightarrow> length inputs' = length inputs"
  by (auto simp: focusAt_def split: if_splits)

lemma focusNext_result:
  assumes "focusNext inputs f = Inr (inputs', f')"
  shows "length inputs' = length inputs \<and> 0 \<le> f' \<and> f' < int (length inputs)"
proof -
  from assms obtain i1 where b: "blurAt inputs f = Inr i1"
    by (auto simp: focusNext_def split: sum.splits)
  have l1: "length i1 = length inputs" by (rule blurAt_length[OF b])
  from assms b have ne: "length i1 \<noteq> 0"
    and fa: "focusAt i1 ((f + 1) mod int (length i1)) = Inr inputs'"
    and f': "f' = (f + 1) mod int (length i1)"
    by (auto simp: focusNext_def Let_def split: if_splits sum.splits)
  from focusAt_length[OF fa] l1 ne f' show ?thesis by simp
qed

lemma focusPrev_result:
  assumes "focusPrev inputs f = Inr (inputs', f')"
  shows "length inputs' = length inputs \<and> 0 \<le> f' \<and> f' < int (length inputs)"
proof -
  from assms obtain i1 where b: "blurAt inputs f = Inr i1"
    by (auto simp: focusPrev_def split: sum.splits)
  have l1: "length i1 = length inputs" by (rule blurAt_length[OF b])
  from b have fr: "0 \<le> f" "f < int (length inputs)"
    by (auto simp: blurAt_def split: if_splits)
  from assms b have fa: "focusAt i1 (if f - 1 < 0 then int (length i1) - 1 else f - 1) = Inr inputs'"
    and f': "f' = (if f - 1 < 0 then int (length i1) - 1 else f - 1)"
    by (auto simp: focusPrev_def Let_def split: sum.splits)
  from focusAt_length[OF fa] l1 f' fr show ?thesis by auto
qed

lemma focusNext_total:
  assumes "0 \<le> f" "f < int (length inputs)"
  shows "\<exists>r. focusNext inputs f = Inr r"
proof -
  have ne: "length inputs \<noteq> 0" using assms by auto
  then have "0 \<le> (f + 1) mod int (length inputs)"
    "(f + 1) mod int (length inputs) < int (length inputs)"
    by simp_all
  with assms ne show ?thesis
    by (simp add: focusNext_def blurAt_def focusAt_def Let_def)
qed

lemma focusPrev_total:
  assumes "0 \<le> f" "f < int (length inputs)"
  shows "\<exists>r. focusPrev inputs f = Inr r"
  using assms by (auto simp: focusPrev_def blurAt_def focusAt_def Let_def)

lemma key_cases:
  obtains (esc) "key = ''esc''"
    | (nxt) "key \<noteq> ''esc''" "key = ''tab'' \<or> key = ''down''"
    | (prv) "key \<noteq> ''esc''" "\<not> (key = ''tab'' \<or> key = ''down'')" "key = ''shift+tab'' \<or> key = ''up''"
    | (adv) "key = ''enter'' \<or> key = ''ctrl+d''"
    | (other) "key \<noteq> ''esc''" "\<not> (key = ''tab'' \<or> key = ''down'')"
        "\<not> (key = ''shift+tab'' \<or> key = ''up'')" "\<not> (key = ''ctrl+d'' \<or> key = ''enter'')"
  by fast

lemma updateConfigView_next:
  "key \<noteq> ''esc'' \<Longrightarrow> key = ''tab'' \<or> key = ''down'' \<Longrightarrow>
   updateConfigView lib m key =
     (case focusNext (configInputs m) (configFocus m) of
        Inl e \<Rightarrow> Inl e
      | Inr (inputs, f) \<Rightarrow> Inr (m\<lparr>configInputs := inputs, configFocus := f\<rparr>, Blink))"
  by (simp add: updateConfigView_def)

lemma updateConfigView_prev:
  "key \<noteq> ''esc'' \<Longrightarrow> \<not> (key = ''tab'' \<or> key = ''down'') \<Longrightarrow>
   key = ''shift+tab'' \<or> key = ''up'' \<Longrightarrow>
   updateConfigView lib m key =
     (case focusPrev (configInputs m) (configFocus m) of
        Inl e \<Rightarrow> Inl e
      | Inr (inputs, f) \<Rightarrow> Inr (m\<lparr>configInputs := inputs, configFocus := f\<rparr>, Blink))"
  by (simp add: updateConfigView_def)

lemma inv_config:
  assumes inv: "wizardInv m" and view: "currentView m = ViewConfig"
    and u: "updateConfigView lib m key = Inr (m', c)"
  shows "wizardInv m'"
proof -
  from inv view have cur: "0 \<le> skillCursor m"
    and im: "inputsMatch (selectedSkill m) (configInputs m)"
    and fo: "focusOk (configFocus m) (configInputs m)"
    by (simp_all add: wizardInv_def)
  from im obtain sk where sk: "selectedSkill m = Some sk"
    and len: "length (configInputs m) = length (Variables sk)"
    by (auto simp: inputsMatch_def split: option.splits)
  show ?thesis
  proof (cases key rule: key_cases)
    case esc
    with u have "m' = m\<lparr>currentView := ViewSkillList, errorMsg := []\<rparr>"
      by (simp add: updateConfigView_def)
    with cur show ?thesis by (simp add: wizardInv_def)
  next
    case nxt
    from u obtain inputs f where r: "focusNext (configInputs m) (configFocus m) = Inr (inputs, f)"
      and m': "m' = m\<lparr>configInputs := inputs, configFocus := f\<rparr>"
      unfolding updateConfigView_next[OF nxt] by (auto split: sum.splits)
    from focusNext_result[OF r] have l: "length inputs = length (configInputs m)"
      and f: "focusOk f inputs" by (simp_all add: focusOk_def)
    from im inputsMatch_length[OF l] have "inputsMatch (selectedSkill m) inputs" by simp
    with cur f view show ?thesis
      by (simp add: m' wizardInv_def)
  next
    case prv
    from u obtain inputs f where r: "focusPrev (configInputs m) (configFocus m) = Inr (inputs, f)"
      and m': "m' = m\<lparr>configInputs := inputs, configFocus := f\<rparr>"
      unfolding updateConfigView_prev[OF prv] by (auto split: sum.splits)
    from focusPrev_result[OF r] have l: "length inputs = length (configInputs m)"
      and f: "focusOk f inputs" by (simp_all add: focusOk_def)
    from im inputsMatch_length[OF l] have "inputsMatch (selectedSkill m) inputs" by simp
    with cur f view show ?thesis
      by (simp add: m' wizardInv_def)
  next
    case adv
    show ?thesis
    proof (cases "find missing (zip (Variables sk) (configInputs m))")
      case None
      with u have m': "m' = (setupDeployInputs lib
                (m\<lparr>errorMsg := [],
                   configValues := configValues m ++
                     map_of (rev (zip (map VarName (Variables sk))
                                      (map tiValue (configInputs m))))\<rparr>))
              \<lparr>currentView := ViewDeploy\<rparr>"
        by (simp add: updateConfigView_advance[OF sk len adv])
      have "skillCursor m' = skillCursor m" "selectedSkill m' = selectedSkill m"
        "configInputs m' = configInputs m" "length (deployInputs m') = 2" "deployFocus m' = 0"
        "currentView m' = ViewDeploy"
        by (simp_all add: m' setupDeployInputs_def Let_def)
      with cur im show ?thesis by (simp add: wizardInv_def)
    next
      case (Some p)
      with u have "m' = m\<lparr>errorMsg := VarLabel (fst p) @ '' is required''\<rparr>"
        by (simp add: updateConfigView_advance[OF sk len adv])
      with cur im fo view show ?thesis by (simp add: wizardInv_def)
    qed
  next
    case other
    with u have "m' = m\<lparr>configInputs := map (widgetUpdate lib (KeyMsg key)) (configInputs m)\<rparr>"
      by (simp add: updateConfigView_def updateConfigInputs_def)
    with cur im fo view show ?thesis
      by (simp add: wizardInv_def inputsMatch_def focusOk_def split: option.splits)
  qed
qed


lemma updateDeployView_next:
  "key \<noteq> ''esc'' \<Longrightarrow> key = ''tab'' \<or> key = ''down'' \<Longrightarrow>
   updateDeployView lib m key =
     (case focusNext (deployInputs m) (deployFocus m) of
        Inl e \<Rightarrow> Inl e
      | Inr (inputs, f) \<Rightarrow> Inr (m\<lparr>deployInputs := inputs, deployFocus := f\<rparr>, Blink))"
  by (simp add: updateDeployView_def)

lemma updateDeployView_prev:
  "key \<noteq> ''esc'' \<Longrightarrow> \<not> (key = ''tab'' \<or> key = ''down'') \<Longrightarrow>
   key = ''shift+tab'' \<or> key = ''up'' \<Longrightarrow>
   updateDeployView lib m key =
     (case focusPrev (deployInputs m) (deployFocus m) of
        Inl e \<Rightarrow> Inl e
      | Inr (inputs, f) \<Rightarrow> Inr (m\<lparr>deployInputs := inputs, deployFocus := f\<rparr>, Blink))"
  by (simp add: updateDeployView_def)

lemma resultSat_simps [simp]:
  "resultSat P (Inl e) = True"
  "resultSat P (Inr (m', c)) = P m'"
  by (simp_all add: resultSat_def)

lemma resultSatD: "resultSat P r \<Longrightarrow> r = Inr (m', c) \<Longrightarrow> P m'"
  by simp

lemma updateDeployView_advance:
  assumes len: "length (deployInputs m) = 2" and key: "key = ''enter'' \<or> key = ''ctrl+d''"
  shows "updateDeployView lib m key =
     (if tiValue (deployInputs m ! 0) = []
        then Inr (m\<lparr>errorMsg := ''Skills Folder is required''\<rparr>, NoCmd)
      else if tiValue (deployInputs m ! 1) = []
        then Inr (m\<lparr>errorMsg := ''Skill Name is required''\<rparr>, NoCmd)
      else Inr (m\<lparr>errorMsg := [], skillsFolder := tiValue (deployInputs m ! 0),
                  skillFolderName := tiValue (deployInputs m ! 1),
                  currentView := ViewConfirm\<rparr>, NoCmd))"
  using key
  by (elim disjE)
    (simp_all add: updateDeployView_def validateDeployInputs_def saveDeployInputs_def len)

lemma wizardInv_free: "\<not> inFlow (currentView m) \<Longrightarrow> wizardInv m = (0 \<le> skillCursor m)"
  by (auto simp: wizardInv_def inFlow_def hasTarget_def)

lemma inv_deploy:
  assumes inv: "wizardInv m" and view: "currentView m = ViewDeploy"
    and u: "updateDeployView lib m key = Inr (m', c)"
  shows "wizardInv m'"
proof -
  from inv view have cur: "0 \<le> skillCursor m"
    and im: "inputsMatch (selectedSkill m) (configInputs m)"
    and len: "length (deployInputs m) = 2"
    and fo: "0 \<le> deployFocus m" "deployFocus m < 2"
    by (simp_all add: wizardInv_def)
  show ?thesis
  proof (cases key rule: key_cases)
    case esc
    with u have m': "m' = m\<lparr>currentView := ViewConfig, errorMsg := [], configFocus := 0,
               configInputs := focusFirst (configInputs m)\<rparr>"
      by (simp add: updateDeployView_def)
    from im inputsMatch_length[of "focusFirst (configInputs m)" "configInputs m"]
    have "inputsMatch (selectedSkill m) (focusFirst (configInputs m))" by simp
    moreover have "focusOk 0 (focusFirst (configInputs m))"
      by (cases "configInputs m") (simp_all add: focusOk_def focusFirst_def)
    ultimately show ?thesis using cur by (simp add: m' wizardInv_def)
  next
    case nxt
    from u obtain inputs f where r: "focusNext (deployInputs m) (deployFocus m) = Inr (inputs, f)"
      and m': "m' = m\<lparr>deployInputs := inputs, deployFocus := f\<rparr>"
      unfolding updateDeployView_next[OF nxt] by (auto split: sum.splits)
    from focusNext_result[OF r] len cur im view show ?thesis
      by (simp add: m' wizardInv_def)
  next
    case prv
    from u obtain inputs f where r: "focusPrev (deployInputs m) (deployFocus m) = Inr (inputs, f)"
      and m': "m' = m\<lparr>deployInputs := inputs, deployFocus := f\<rparr>"
      unfolding updateDeployView_prev[OF prv] by (auto split: sum.splits)
    from focusPrev_result[OF r] len cur im view show ?thesis
      by (simp add: m' wizardInv_def)
  next
    case adv
    have "resultSat wizardInv (updateDeployView lib m key)"
      unfolding updateDeployView_advance[OF len adv]
      using cur im len fo view by (simp add: wizardInv_def)
    from resultSatD[OF this u] show ?thesis .
  next
    case other
    with u have "m' = m\<lparr>deployInputs := map (widgetUpdate lib (KeyMsg key)) (deployInputs m)\<rparr>"
      by (simp add: updateDeployView_def updateDeployInputs_def)
    with cur im len fo view show ?thesis by (simp add: wizardInv_def)
  qed
qed

lemma focusOk_first: "focusOk 0 (focusFirst inputs)"
  by (cases inputs) (simp_all add: focusOk_def focusFirst_def)

lemma wizardInv_setup:
  assumes "0 \<le> skillCursor m" "selectedSkill m = Some sk" "currentView m = ViewConfig"
  shows "wizardInv (setupInputsFromManifest lib m)"
proof -
  have "configInputs (setupInputsFromManifest lib m)
          = focusFirst (map (variableInput lib (configValues m)) (Variables sk))"
    "configFocus (setupInputsFromManifest lib m) = 0"
    "selectedSkill (setupInputsFromManifest lib m) = Some sk"
    "skillCursor (setupInputsFromManifest lib m) = skillCursor m"
    "currentView (setupInputsFromManifest lib m) = ViewConfig"
    using assms by (simp_all add: setupInputsFromManifest_def)
  with assms(1) show ?thesis
    by (simp add: wizardInv_def inputsMatch_def focusOk_first)
qed

lemma inv_skillList:
  assumes inv: "wizardInv m" and view: "currentView m = ViewSkillList"
  shows "resultSat wizardInv (handleSkillListView lib m key)"
proof -
  from inv have cur: "0 \<le> skillCursor m" by (simp add: wizardInv_def)
  show ?thesis
  proof (cases "key = ''enter''")
    case True
    show ?thesis
    proof (cases "skillCursor m < int (length (manifests m))")
      case sel: True
      have h: "handleSkillListView lib m key =
         Inr (setupInputsFromManifest lib
                (m\<lparr>selectedSkill := Some (manifests m ! nat (skillCursor m)),
                   selectedError := None, currentView := ViewConfig\<rparr>), Blink)"
        using True sel cur by (simp add: handleSkillListView_def Let_def)
      have "wizardInv (setupInputsFromManifest lib
                (m\<lparr>selectedSkill := Some (manifests m ! nat (skillCursor m)),
                   selectedError := None, currentView := ViewConfig\<rparr>))"
        by (rule wizardInv_setup[where sk = "manifests m ! nat (skillCursor m)"])
          (simp_all add: cur)
      then show ?thesis unfolding h by simp
    next
      case False
      with True cur view show ?thesis
        by (simp add: handleSkillListView_def Let_def wizardInv_free)
    qed
  next
    case False
    with cur view show ?thesis
      by (simp add: handleSkillListView_def Let_def wizardInv_free)
  qed
qed

lemma inv_confirm:
  assumes inv: "wizardInv m" and view: "currentView m = ViewConfirm"
  shows "resultSat wizardInv (handleConfirmView fs m key)"
  using inv view
  by (simp add: handleConfirmView_def wizardInv_def split: sum.split bool.split)

lemma inv_overwrite:
  assumes inv: "wizardInv m" and view: "currentView m = ViewOverwrite"
  shows "resultSat wizardInv (handleOverwriteView m key)"
  using inv view by (simp add: handleOverwriteView_def wizardInv_def)

lemma inv_done:
  assumes inv: "wizardInv m" and view: "currentView m = ViewDone"
  shows "resultSat wizardInv (handleDoneView m key)"
  using inv view by (simp add: handleDoneView_def wizardInv_def)

lemma inv_keyPress:
  assumes inv: "wizardInv m" and nc: "currentView m \<noteq> ViewConfig" "currentView m \<noteq> ViewDeploy"
  shows "resultSat wizardInv (handleKeyPress lib fs m key)"
  using nc inv
  by (cases "currentView m")
    (simp_all add: handleKeyPress_def inv_skillList inv_confirm inv_overwrite inv_done)

lemma wizardInv_fields:
  "wizardInv (m\<lparr>quitting := q\<rparr>) = wizardInv m"
  "wizardInv (m\<lparr>width := w, height := h\<rparr>) = wizardInv m"
  "wizardInv (m\<lparr>building := b, buildOutput := out\<rparr>) = wizardInv m"
  by (simp_all add: wizardInv_def)

lemma wizardInv_to_done: "wizardInv m \<Longrightarrow> wizardInv (m\<lparr>currentView := ViewDone\<rparr>)"
  by (simp add: wizardInv_def)

lemma Update_inv:
  assumes inv: "wizardInv m" and u: "Update lib fs m msg = Inr (m', c)"
  shows "wizardInv m'"
proof (cases msg)
  case (KeyMsg key)
  show ?thesis
  proof (cases "key = ''ctrl+c''")
    case True
    with KeyMsg u have "m' = m\<lparr>quitting := True\<rparr>" by (simp add: Update_def)
    with inv show ?thesis by (simp add: wizardInv_fields)
  next
    case False
    note nc = this
    show ?thesis
    proof (cases "currentView m = ViewConfig")
      case True
      with nc KeyMsg u have "updateConfigView lib m key = Inr (m', c)"
        by (simp add: Update_def)
      from inv_config[OF inv True this] show ?thesis .
    next
      case False
      note ncfg = this
      show ?thesis
      proof (cases "currentView m = ViewDeploy")
        case True
        with nc KeyMsg u have "updateDeployView lib m key = Inr (m', c)"
          by (simp add: Update_def)
        from inv_deploy[OF inv True this] show ?thesis .
      next
        case False
        with nc ncfg KeyMsg u have "handleKeyPress lib fs m key = Inr (m', c)"
          by (simp add: Update_def)
        from resultSatD[OF inv_keyPress[OF inv ncfg False] this] show ?thesis .
      qed
    qed
  qed
next
  case (WindowSizeMsg w h)
  with u have "m' = m\<lparr>width := w, height := h\<rparr>" by (simp add: Update_def)
  with inv show ?thesis by (simp add: wizardInv_fields)
next
  case (buildCompleteMsg out err)
  show ?thesis
  proof (cases err)
    case None
    with buildCompleteMsg u have "m' = m\<lparr>building := False, buildOutput := out\<rparr>"
      by (simp add: Update_def Let_def)
    with inv show ?thesis by (simp add: wizardInv_fields)
  next
    case (Some e)
    with buildCompleteMsg u
    have "m' = m\<lparr>building := False, buildOutput := out, errorMsg := e, currentView := ViewDone\<rparr>"
      by (simp add: Update_def Let_def)
    with inv show ?thesis by (simp add: wizardInv_def)
  qed
next
  case (deployCompleteMsg err)
  with u inv show ?thesis
    by (cases err) (auto simp: Update_def wizardInv_def)
next
  case OtherMsg
  with u inv show ?thesis by (simp add: Update_def)
qed

lemma NewModel_inv: "wizardInv (NewModel root ver ms errs)"
  by (simp add: wizardInv_def NewModel_def)

lemma runMsgs_inv:
  "wizardInv m \<Longrightarrow> runMsgs lib m evs = Inr m' \<Longrightarrow> wizardInv m'"
proof (induction evs arbitrary: m)
  case Nil
  then show ?case by simp
next
  case (Cons ev evs)
  obtain fs msg where ev: "ev = (fs, msg)" by (cases ev)
  with Cons.prems obtain m1 c where u: "Update lib fs m msg = Inr (m1, c)"
    and r: "runMsgs lib m1 evs = Inr m'"
    by (auto split: sum.splits)
  from Cons.IH[OF Update_inv[OF Cons.prems(1) u] r] show ?case .
qed


text \<open>
  In a state that satisfies the invariant the handler panics in one situation only: a
  focus-cycling key in the config view of a skill without variables.
\<close>

lemma focus_without_inputs:
  "focusNext [] f = Inl IndexOutOfRange" "focusPrev [] f = Inl IndexOutOfRange"
  by (auto simp: focusNext_def focusPrev_def blurAt_def)

lemma Update_panics_only_without_inputs:
  assumes inv: "wizardInv m" and u: "Update lib fs m msg = Inl e"
  shows "currentView m = ViewConfig \<and> configInputs m = [] \<and> e = IndexOutOfRange
     \<and> (\<exists>key. msg = KeyMsg key
           \<and> (key = ''tab'' \<or> key = ''down'' \<or> key = ''shift+tab'' \<or> key = ''up''))"
proof (cases msg)
  case (KeyMsg key)
  from inv have cur: "0 \<le> skillCursor m" by (simp add: wizardInv_def)
  from u KeyMsg have nc: "key \<noteq> ''ctrl+c''" by (auto simp: Update_def)
  show ?thesis
  proof (cases "currentView m = ViewConfig")
    case True
    with nc KeyMsg u have uc: "updateConfigView lib m key = Inl e"
      by (simp add: Update_def)
    from inv True have im: "inputsMatch (selectedSkill m) (configInputs m)"
      and fo: "focusOk (configFocus m) (configInputs m)"
      by (simp_all add: wizardInv_def)
    from im obtain sk where sk: "selectedSkill m = Some sk"
      and len: "length (configInputs m) = length (Variables sk)"
      by (auto simp: inputsMatch_def split: option.splits)
    show ?thesis
    proof (cases key rule: key_cases)
      case esc
      with uc show ?thesis by (simp add: updateConfigView_def)
    next
      case nxt
      from uc have f: "focusNext (configInputs m) (configFocus m) = Inl e"
        unfolding updateConfigView_next[OF nxt] by (auto split: sum.splits)
      have "configInputs m = []"
      proof (rule ccontr)
        assume "configInputs m \<noteq> []"
        with fo have "0 \<le> configFocus m" "configFocus m < int (length (configInputs m))"
          by (simp_all add: focusOk_def)
        from focusNext_total[OF this] f show False by auto
      qed
      moreover from this f have "e = IndexOutOfRange"
        by (simp add: focus_without_inputs)
      ultimately show ?thesis using True KeyMsg nxt by auto
    next
      case prv
      from uc have f: "focusPrev (configInputs m) (configFocus m) = Inl e"
        unfolding updateConfigView_prev[OF prv] by (auto split: sum.splits)
      have "configInputs m = []"
      proof (rule ccontr)
        assume "configInputs m \<noteq> []"
        with fo have "0 \<le> configFocus m" "configFocus m < int (length (configInputs m))"
          by (simp_all add: focusOk_def)
        from focusPrev_total[OF this] f show False by auto
      qed
      moreover from this f have "e = IndexOutOfRange"
        by (simp add: focus_without_inputs)
      ultimately show ?thesis using True KeyMsg prv by auto
    next
      case adv
      from uc show ?thesis
        unfolding updateConfigView_advance[OF sk len adv] by (auto split: option.splits)
    next
      case other
      with uc show ?thesis by (simp add: updateConfigView_def updateConfigInputs_def)
    qed
  next
    case False
    note ncfg = this
    show ?thesis
    proof (cases "currentView m = ViewDeploy")
      case True
      with nc KeyMsg u have ud: "updateDeployView lib m key = Inl e"
        by (simp add: Update_def)
      from inv True have len: "length (deployInputs m) = 2"
        and fo: "0 \<le> deployFocus m" "deployFocus m < int (length (deployInputs m))"
        by (simp_all add: wizardInv_def)
      show ?thesis
      proof (cases key rule: key_cases)
        case esc
        with ud show ?thesis by (simp add: updateDeployView_def)
      next
        case nxt
        from ud focusNext_total[OF fo] show ?thesis
          unfolding updateDeployView_next[OF nxt] by (auto split: sum.splits)
      next
        case prv
        from ud focusPrev_total[OF fo] show ?thesis
          unfolding updateDeployView_prev[OF prv] by (auto split: sum.splits)
      next
        case adv
        from ud show ?thesis
          unfolding updateDeployView_advance[OF len adv] by (auto split: if_splits)
      next
        case other
        with ud show ?thesis by (simp add: updateDeployView_def updateDeployInputs_def)
      qed
    next
      case False
      with nc ncfg KeyMsg u have hk: "handleKeyPress lib fs m key = Inl e"
        by (simp add: Update_def)
      have "\<exists>r. handleKeyPress lib fs m key = Inr r"
      proof (cases "currentView m")
        case ViewSkillList
        with cur show ?thesis by (simp add: handleKeyPress_def handleSkillListView_def Let_def)
      next
        case ViewConfirm
        with inv obtain sk where "selectedSkill m = Some sk"
          by (auto simp: wizardInv_def inputsMatch_def split: option.splits)
        with ViewConfirm show ?thesis
          by (simp add: handleKeyPress_def handleConfirmView_def skillExists_def Let_def
              split: bool.split)
      next
        case ViewOverwrite
        then show ?thesis by (simp add: handleKeyPress_def handleOverwriteView_def)
      next
        case ViewDone
        then show ?thesis by (simp add: handleKeyPress_def handleDoneView_def)
      qed (simp_all add: handleKeyPress_def)
      with hk show ?thesis by auto
    qed
  qed
qed (use u in \<open>auto simp: Update_def Let_def split: option.splits\<close>)

lemma reachable_config:
  assumes "runMsgs lib (NewModel root ver ms errs) evs = Inr m"
    and "currentView m = ViewConfig"
  shows "\<exists>sk. selectedSkill m = Some sk \<and> length (configInputs m) = length (Variables sk)"
  using runMsgs_inv[OF NewModel_inv assms(1)] assms(2)
  by (auto simp: wizardInv_def inputsMatch_def split: option.splits)

text \<open>
  Claim C1.  In every state that the wizard reaches in the config view a skill is selected
  and there is one input per variable, and the advance keys are rejected exactly when some
  required variable has an empty input.  On rejection the view stays and only the error
  message changes: it names the label of such a variable.  On acceptance the view becomes
  the deploy view, the error is cleared, and the configuration map is the old one
  overwritten with every variable's name and input value, in the manifest's order, so that
  each variable's value is in the map under its name (where two variables share a name,
  the map holds the later one's value).
\<close>

theorem config_advance:
  assumes reach: "runMsgs lib (NewModel root ver ms errs) evs = Inr m"
    and view: "currentView m = ViewConfig"
    and key: "key = ''enter'' \<or> key = ''ctrl+d''"
  shows "\<exists>sk m'. selectedSkill m = Some sk
    \<and> length (configInputs m) = length (Variables sk)
    \<and> Update lib fs m (KeyMsg key) = Inr (m', Blink)
    \<and> (currentView m' = ViewConfig \<or> currentView m' = ViewDeploy)
    \<and> ((currentView m' = ViewConfig) =
         (\<exists>i<length (Variables sk).
            VarRequired (Variables sk ! i) \<and> tiValue (configInputs m ! i) = []))
    \<and> (currentView m' = ViewConfig \<longrightarrow>
         (\<exists>i<length (Variables sk).
            VarRequired (Variables sk ! i) \<and> tiValue (configInputs m ! i) = []
            \<and> m' = m\<lparr>errorMsg := VarLabel (Variables sk ! i) @ '' is required''\<rparr>))
    \<and> (currentView m' = ViewDeploy \<longrightarrow>
         errorMsg m' = []
         \<and> configValues m' = configValues m ++
              map_of (rev (zip (map VarName (Variables sk)) (map tiValue (configInputs m))))
         \<and> (\<forall>i<length (Variables sk).
              (\<forall>j. i < j \<and> j < length (Variables sk) \<longrightarrow>
                   VarName (Variables sk ! j) \<noteq> VarName (Variables sk ! i)) \<longrightarrow>
              configValues m' (VarName (Variables sk ! i)) = Some (tiValue (configInputs m ! i))))"
proof -
  from reachable_config[OF reach view] obtain sk where sk: "selectedSkill m = Some sk"
    and len: "length (configInputs m) = length (Variables sk)" by blast
  from config_advance_step[OF view sk len key, of lib fs] sk len
  show ?thesis by blast
qed


lemma demoWidget_fields [simp]:
  "widgetUpdate demoWidget = typeKey" "widgetSetValue demoWidget = cutAtLimit"
  by (simp_all add: demoWidget_def)

lemma demo_config_facts:
  "currentView demoConfigEmpty = ViewConfig" "currentView demoConfigTyped = ViewConfig"
  "tiValue (configInputs demoConfigEmpty ! 0) = []"
  "tiValue (configInputs demoConfigTyped ! 0) = ''t''"
  "tiValue (configInputs demoConfigTyped ! Suc 0) = []"
  "configValues demoConfigTyped = Map.empty"
  "selectedSkill demoConfigEmpty = Some demoSkill"
  "selectedSkill demoConfigTyped = Some demoSkill"
  by (simp_all add: demoConfigEmpty_def demoConfigTyped_def demoStart_def NewModel_def
      setupInputsFromManifest_def demoSkill_def variableInput_def textinputNew_def
      focusFirst_def Blur_def Focus_def typeKey_def cutAtLimit_def Let_def)

lemma demo_config_runs:
  "runMsgs demoWidget (NewModel ''/src'' ''1.0'' [demoSkill] []) demoConfigRun = Inr demoConfigEmpty"
  "runMsgs demoWidget (NewModel ''/src'' ''1.0'' [demoSkill] []) demoTypedRun = Inr demoConfigTyped"
proof -
  have a: "Update demoWidget Map.empty (NewModel ''/src'' ''1.0'' [demoSkill] []) (KeyMsg ''enter'')
        = Inr (demoConfigEmpty, Blink)"
    by (simp add: Update_def handleKeyPress_def handleSkillListView_def Let_def
        demoConfigEmpty_def demoStart_def NewModel_def)
  have b: "Update demoWidget Map.empty demoConfigEmpty (KeyMsg ''t'') = Inr (demoConfigTyped, Batch)"
    by (simp add: Update_def updateConfigView_def updateConfigInputs_def demo_config_facts
        demoConfigTyped_def)
  show "runMsgs demoWidget (NewModel ''/src'' ''1.0'' [demoSkill] []) demoConfigRun = Inr demoConfigEmpty"
    by (simp add: demoConfigRun_def a)
  show "runMsgs demoWidget (NewModel ''/src'' ''1.0'' [demoSkill] []) demoTypedRun = Inr demoConfigTyped"
    by (simp add: demoTypedRun_def a b)
qed

theorem config_advance_witness:
  "runMsgs demoWidget (NewModel ''/src'' ''1.0'' [demoSkill] []) demoConfigRun = Inr demoConfigEmpty
   \<and> Update demoWidget Map.empty demoConfigEmpty (KeyMsg ''enter'')
       = Inr (demoConfigEmpty\<lparr>errorMsg := ''API Token is required''\<rparr>, Blink)
   \<and> runMsgs demoWidget (NewModel ''/src'' ''1.0'' [demoSkill] []) demoTypedRun = Inr demoConfigTyped
   \<and> (\<exists>m'. Update demoWidget Map.empty demoConfigTyped (KeyMsg ''ctrl+d'') = Inr (m', Blink)
         \<and> currentView m' = ViewDeploy
         \<and> configValues m' ''API_TOKEN'' = Some ''t''
         \<and> configValues m' ''BASE_URL'' = Some [])"
proof -
  have len: "length (Variables demoSkill) = 2" by (simp add: demoSkill_def)
  have req: "VarRequired (Variables demoSkill ! i) = (i = 0)" if "i < 2" for i
    using that by (cases i) (simp_all add: demoSkill_def)
  have lab: "VarLabel (Variables demoSkill ! 0) = ''API Token''" by (simp add: demoSkill_def)
  have names: "map VarName (Variables demoSkill) = [''API_TOKEN'', ''BASE_URL'']"
    by (simp add: demoSkill_def)
  let ?m = demoConfigEmpty
  from config_advance [OF demo_config_runs(1) demo_config_facts(1), where key = "''enter''"
      and fs = Map.empty]
  obtain sk1 m1 where s1: "selectedSkill ?m = Some sk1"
    and r1: "Update demoWidget Map.empty ?m (KeyMsg ''enter'') = Inr (m1, Blink)"
    and iff1: "(currentView m1 = ViewConfig) =
         (\<exists>i<length (Variables sk1).
            VarRequired (Variables sk1 ! i) \<and> tiValue (configInputs ?m ! i) = [])"
    and rej1: "currentView m1 = ViewConfig \<longrightarrow>
         (\<exists>i<length (Variables sk1).
            VarRequired (Variables sk1 ! i) \<and> tiValue (configInputs ?m ! i) = []
            \<and> m1 = ?m\<lparr>errorMsg := VarLabel (Variables sk1 ! i) @ '' is required''\<rparr>)"
    by simp blast
  from s1 have sk1: "sk1 = demoSkill" by (simp add: demo_config_facts)
  have "\<exists>i<length (Variables demoSkill).
            VarRequired (Variables demoSkill ! i) \<and> tiValue (configInputs ?m ! i) = []"
    by (rule exI[of _ 0]) (simp add: len req demo_config_facts)
  with iff1 rej1 obtain i where i: "i < 2" "VarRequired (Variables demoSkill ! i)"
    "m1 = ?m\<lparr>errorMsg := VarLabel (Variables demoSkill ! i) @ '' is required''\<rparr>"
    unfolding sk1 len by blast
  from i(1,2) have "i = 0" by (simp add: req)
  with i(3) have m1: "m1 = ?m\<lparr>errorMsg := ''API Token is required''\<rparr>" by (simp add: lab)
  let ?n = demoConfigTyped
  from config_advance [OF demo_config_runs(2) demo_config_facts(2), where key = "''ctrl+d''"
      and fs = Map.empty]
  obtain sk2 m2 where s2: "selectedSkill ?n = Some sk2"
    and l2: "length (configInputs ?n) = length (Variables sk2)"
    and r2: "Update demoWidget Map.empty ?n (KeyMsg ''ctrl+d'') = Inr (m2, Blink)"
    and or2: "currentView m2 = ViewConfig \<or> currentView m2 = ViewDeploy"
    and iff2: "(currentView m2 = ViewConfig) =
         (\<exists>i<length (Variables sk2).
            VarRequired (Variables sk2 ! i) \<and> tiValue (configInputs ?n ! i) = [])"
    and acc2: "currentView m2 = ViewDeploy \<longrightarrow>
         configValues m2 = configValues ?n ++
              map_of (rev (zip (map VarName (Variables sk2)) (map tiValue (configInputs ?n))))"
    by simp blast
  from s2 have sk2: "sk2 = demoSkill" by (simp add: demo_config_facts)
  from l2 have l2': "length (configInputs ?n) = 2" by (simp add: sk2 len)
  then obtain a b where ab: "configInputs ?n = [a, b]"
    by (auto simp: length_Suc_conv numeral_2_eq_2)
  with demo_config_facts(4,5) have vals: "map tiValue (configInputs ?n) = [''t'', []]" by simp
  have "\<not> (\<exists>i<length (Variables demoSkill).
            VarRequired (Variables demoSkill ! i) \<and> tiValue (configInputs ?n ! i) = [])"
    unfolding len by (auto simp: req demo_config_facts)
  with iff2 or2 have v2: "currentView m2 = ViewDeploy" unfolding sk2 by blast
  with acc2 have "configValues m2 = [''API_TOKEN'' \<mapsto> ''t'', ''BASE_URL'' \<mapsto> []]"
    unfolding sk2 names vals by (simp add: demo_config_facts)
  then have c2: "configValues m2 ''API_TOKEN'' = Some ''t''" "configValues m2 ''BASE_URL'' = Some []"
    by simp_all
  from r1 m1 r2 v2 c2 demo_config_runs show ?thesis by blast
qed

text \<open>
  Claim C2.  In every state that the wizard reaches in the confirm view a skill is selected,
  the deploy path is the path join of the saved skills folder and skill name, and an
  affirming key moves to the overwrite view exactly when the file system has an entry at
  \<open>bin/<binary name>\<close> under that path, the binary name being the manifest's name when
  its build binary is empty; otherwise it moves to the building view and hands back the
  build task.  The saved folder and name are the values of the two deploy inputs: advancing
  from the deploy view with both inputs non-empty saves them and enters the confirm view.
\<close>

theorem deploy_path_and_overwrite:
  "(runMsgs lib (NewModel root ver ms errs) evs = Inr m \<and> currentView m = ViewConfirm
      \<and> (key = ''enter'' \<or> key = ''y'') \<longrightarrow>
      (\<exists>sk. selectedSkill m = Some sk
         \<and> getDeployPath m = pathJoin [skillsFolder m, skillFolderName m]
         \<and> Update lib fs m (KeyMsg key) =
            (if statOk fs (pathJoin [getDeployPath m, ''bin'',
                                     if BuildBinary sk = [] then Name sk else BuildBinary sk])
             then Inr (m\<lparr>currentView := ViewOverwrite\<rparr>, NoCmd)
             else Inr (m\<lparr>currentView := ViewBuilding, building := True, errorMsg := [],
                         statusMsg := []\<rparr>, startBuild))))
   \<and> (runMsgs lib (NewModel root ver ms errs) evs = Inr md \<and> currentView md = ViewDeploy
      \<and> tiValue (deployInputs md ! 0) \<noteq> [] \<and> tiValue (deployInputs md ! 1) \<noteq> []
      \<and> (adv = ''enter'' \<or> adv = ''ctrl+d'') \<longrightarrow>
      Update lib fs md (KeyMsg adv) =
        Inr (md\<lparr>errorMsg := [], skillsFolder := tiValue (deployInputs md ! 0),
                 skillFolderName := tiValue (deployInputs md ! 1),
                 currentView := ViewConfirm\<rparr>, NoCmd))"
proof (intro conjI impI)
  assume a: "runMsgs lib (NewModel root ver ms errs) evs = Inr m \<and> currentView m = ViewConfirm
      \<and> (key = ''enter'' \<or> key = ''y'')"
  then have inv: "wizardInv m" using runMsgs_inv[OF NewModel_inv] by blast
  with a obtain sk where sk: "selectedSkill m = Some sk"
    and t: "skillsFolder m \<noteq> [] \<or> skillFolderName m \<noteq> []"
    by (auto simp: wizardInv_def inputsMatch_def split: option.splits)
  from a confirm_affirm_step[OF _ sk t, of key lib fs] sk
  show "\<exists>sk. selectedSkill m = Some sk
         \<and> getDeployPath m = pathJoin [skillsFolder m, skillFolderName m]
         \<and> Update lib fs m (KeyMsg key) =
            (if statOk fs (pathJoin [getDeployPath m, ''bin'',
                                     if BuildBinary sk = [] then Name sk else BuildBinary sk])
             then Inr (m\<lparr>currentView := ViewOverwrite\<rparr>, NoCmd)
             else Inr (m\<lparr>currentView := ViewBuilding, building := True, errorMsg := [],
                         statusMsg := []\<rparr>, startBuild))"
    by blast
next
  assume a: "runMsgs lib (NewModel root ver ms errs) evs = Inr md \<and> currentView md = ViewDeploy
      \<and> tiValue (deployInputs md ! 0) \<noteq> [] \<and> tiValue (deployInputs md ! 1) \<noteq> []
      \<and> (adv = ''enter'' \<or> adv = ''ctrl+d'')"
  then have inv: "wizardInv md" using runMsgs_inv[OF NewModel_inv] by blast
  with a have len: "length (deployInputs md) = 2" by (simp add: wizardInv_def)
  from a have adv: "adv = ''enter'' \<or> adv = ''ctrl+d''" and nc: "adv \<noteq> ''ctrl+c''" by auto
  from a nc have "Update lib fs md (KeyMsg adv) = updateDeployView lib md adv"
    by (simp add: Update_def)
  with a show "Update lib fs md (KeyMsg adv) =
        Inr (md\<lparr>errorMsg := [], skillsFolder := tiValue (deployInputs md ! 0),
                 skillFolderName := tiValue (deployInputs md ! 1),
                 currentView := ViewConfirm\<rparr>, NoCmd)"
    by (simp add: updateDeployView_advance[OF len adv])
qed

lemma demo_deploy_facts:
  "currentView demoDeployEmpty = ViewDeploy" "currentView demoDeployTyped = ViewDeploy"
  "currentView demoConfirmed = ViewConfirm"
  "deployInputs demoDeployTyped ! 0
     = textinputNew\<lparr>tiPlaceholder := ''/path/to/.claude/skills/'', CharLimit := 200,
                     Width := 50, focus := True, tiValue := ''/s''\<rparr>"
  "deployInputs demoDeployTyped ! Suc 0
     = textinputNew\<lparr>tiPlaceholder := ''demo'', CharLimit := 100, Width := 50,
                     tiValue := ''demo''\<rparr>"
  "length (deployInputs demoDeployTyped) = 2"
  "selectedSkill demoConfirmed = Some demoSkill"
  "skillsFolder demoConfirmed = ''/s''" "skillFolderName demoConfirmed = ''demo''"
  by (simp_all add: demoDeployEmpty_def demoDeployTyped_def demoConfirmed_def
      setupDeployInputs_def demo_config_facts demoConfigTyped_def demoConfigEmpty_def
      setupInputsFromManifest_def demoStart_def NewModel_def demoSkill_def textinputNew_def
      SetValue_def Blur_def Focus_def typeKey_def cutAtLimit_def Let_def)


lemma runMsgs_append:
  "runMsgs lib m (xs @ ys) =
     (case runMsgs lib m xs of Inl e \<Rightarrow> Inl e | Inr m' \<Rightarrow> runMsgs lib m' ys)"
  by (induction xs arbitrary: m) (auto split: sum.splits)

lemma demo_deploy_runs:
  "runMsgs demoWidget (NewModel ''/src'' ''1.0'' [demoSkill] []) demoDeployRun = Inr demoDeployTyped"
proof -
  have sk: "selectedSkill demoConfigTyped = Some demoSkill"
    and len: "length (configInputs demoConfigTyped) = length (Variables demoSkill)"
    by (simp_all add: demo_config_facts demoConfigTyped_def demoConfigEmpty_def
        setupInputsFromManifest_def demoStart_def NewModel_def)
  have ins: "configInputs demoConfigTyped
      = [(variableInput demoWidget Map.empty (Variables demoSkill ! 0))\<lparr>focus := True, tiValue := ''t''\<rparr>,
         (variableInput demoWidget Map.empty (Variables demoSkill ! 1))\<lparr>focus := False\<rparr>]"
    by (simp add: demoConfigTyped_def demoConfigEmpty_def setupInputsFromManifest_def
        demoStart_def NewModel_def demoSkill_def focusFirst_def Blur_def Focus_def typeKey_def
        variableInput_def textinputNew_def Let_def)
  have f: "find missing (zip (Variables demoSkill) (configInputs demoConfigTyped)) = None"
    by (simp add: ins) (simp add: demoSkill_def missing_def)
  have cv: "map_of (rev (zip (map VarName (Variables demoSkill))
                               (map tiValue (configInputs demoConfigTyped))))
            = [''API_TOKEN'' \<mapsto> ''t'', ''BASE_URL'' \<mapsto> []]"
    by (rule ext) (simp add: ins demo_config_facts, simp add: demoSkill_def variableInput_def
        textinputNew_def Let_def map_add_def)
  have c: "Update demoWidget Map.empty demoConfigTyped (KeyMsg ''enter'') = Inr (demoDeployEmpty, Blink)"
    using updateConfigView_advance[OF sk len, of "''enter''" demoWidget]
    by (simp add: Update_def demo_config_facts f cv demoDeployEmpty_def)
  have d: "Update demoWidget Map.empty demoDeployEmpty (KeyMsg ''/'')
      = Inr (demoDeployEmpty\<lparr>deployInputs := map (typeKey (KeyMsg ''/''))
                                                 (deployInputs demoDeployEmpty)\<rparr>, Batch)"
    by (simp add: Update_def demo_deploy_facts updateDeployView_def updateDeployInputs_def)
  have e: "Update demoWidget Map.empty
        (demoDeployEmpty\<lparr>deployInputs := map (typeKey (KeyMsg ''/''))
                                                 (deployInputs demoDeployEmpty)\<rparr>) (KeyMsg ''s'')
      = Inr (demoDeployTyped, Batch)"
    by (simp add: Update_def demo_deploy_facts updateDeployView_def updateDeployInputs_def
        demoDeployTyped_def)
  show ?thesis
    by (simp add: demoDeployRun_def runMsgs_append demo_config_runs c d e)
qed

theorem deploy_path_and_overwrite_witness:
  "runMsgs demoWidget (NewModel ''/src'' ''1.0'' [demoSkill] []) demoDeployRun = Inr demoDeployTyped
   \<and> Update demoWidget Map.empty demoDeployTyped (KeyMsg ''enter'') = Inr (demoConfirmed, NoCmd)
   \<and> runMsgs demoWidget (NewModel ''/src'' ''1.0'' [demoSkill] []) demoConfirmRun = Inr demoConfirmed
   \<and> getDeployPath demoConfirmed = ''/s/demo''
   \<and> Update demoWidget [''/s/demo/bin/demo'' \<mapsto> (''ELF'', octal 7 5 5)] demoConfirmed (KeyMsg ''y'')
       = Inr (demoConfirmed\<lparr>currentView := ViewOverwrite\<rparr>, NoCmd)
   \<and> Update demoWidget Map.empty demoConfirmed (KeyMsg ''enter'')
       = Inr (demoConfirmed\<lparr>currentView := ViewBuilding, building := True, errorMsg := [],
                            statusMsg := []\<rparr>, startBuild)"
proof -
  let ?start = "NewModel ''/src'' ''1.0'' [demoSkill] []"
  let ?fs = "[''/s/demo/bin/demo'' \<mapsto> (''ELF'', octal 7 5 5)]"
  note r1 = demo_deploy_runs
  have h2: "runMsgs demoWidget ?start demoDeployRun = Inr demoDeployTyped
      \<and> currentView demoDeployTyped = ViewDeploy
      \<and> tiValue (deployInputs demoDeployTyped ! 0) \<noteq> []
      \<and> tiValue (deployInputs demoDeployTyped ! 1) \<noteq> []
      \<and> (''enter'' = ''enter'' \<or> ''enter'' = ''ctrl+d'')"
    by (simp add: r1 demo_deploy_facts)
  from mp [OF deploy_path_and_overwrite [where lib = demoWidget and md = demoDeployTyped
        and evs = demoDeployRun and adv = "''enter''" and fs = Map.empty, THEN conjunct2] h2]
  have a: "Update demoWidget Map.empty demoDeployTyped (KeyMsg ''enter'') = Inr (demoConfirmed, NoCmd)"
    by (simp add: demo_deploy_facts demoConfirmed_def)
  with r1 have r2: "runMsgs demoWidget ?start demoConfirmRun = Inr demoConfirmed"
    by (simp add: demoConfirmRun_def runMsgs_append)
  have p: "pathJoin [''/s'', ''demo''] = ''/s/demo''"
    "pathJoin [''/s/demo'', ''bin'', ''demo''] = ''/s/demo/bin/demo''"
    by (simp_all add: Clean_def cleanStep_def pathJoin.simps Let_def)
  have sk: "BuildBinary demoSkill = []" "Name demoSkill = ''demo''" by (simp_all add: demoSkill_def)
  have h1: "runMsgs demoWidget ?start demoConfirmRun = Inr demoConfirmed
      \<and> currentView demoConfirmed = ViewConfirm \<and> (key = ''enter'' \<or> key = ''y'')"
    if "key = ''enter'' \<or> key = ''y''" for key
    using that by (simp add: r2 demo_deploy_facts)
  from mp [OF deploy_path_and_overwrite [where lib = demoWidget and m = demoConfirmed
        and evs = demoConfirmRun and key = "''y''" and fs = ?fs, THEN conjunct1] h1]
  have b: "getDeployPath demoConfirmed = ''/s/demo''
      \<and> Update demoWidget ?fs demoConfirmed (KeyMsg ''y'')
          = Inr (demoConfirmed\<lparr>currentView := ViewOverwrite\<rparr>, NoCmd)"
    by (simp add: demo_deploy_facts p sk statOk_def)
  from mp [OF deploy_path_and_overwrite [where lib = demoWidget and m = demoConfirmed
        and evs = demoConfirmRun and key = "''enter''" and fs = Map.empty, THEN conjunct1] h1]
  have c: "Update demoWidget Map.empty demoConfirmed (KeyMsg ''enter'')
       = Inr (demoConfirmed\<lparr>currentView := ViewBuilding, building := True, errorMsg := [],
                            statusMsg := []\<rparr>, startBuild)"
    by (simp add: demo_deploy_facts p sk statOk_def)
  from r1 a r2 b c show ?thesis by blast
qed

section \<open>Properties of the deployer\<close>











lemma commandDocs_failed: "runHelp host bp [c] = None \<Longrightarrow> commandDocs host bp dp c = []"
  by (simp add: commandDocs_def)

lemma subcommandDocs_failed:
  "runHelp host bp [c, s] = None \<Longrightarrow> subcommandDocs host bp dp c s = []"
  by (simp add: subcommandDocs_def)

lemma deploySkill_outcome_independent:
  "fst (deploySkill (host\<lparr>runHelp := r\<rparr>) m fs) = fst (deploySkill host m fs)"
  by (simp add: deploySkill_def Let_def WriteFile_def generateSkillDocs_def
      split: option.split prod.split)

text \<open>
  Claim C7.  When the top-level help invocation fails or lists no command, introspection
  yields the generic instruction to run the binary with \<open>--help\<close>.  A top-level command
  whose help invocation fails adds nothing: the documentation is the one of the remaining
  commands, as if the failing one were not listed.  The same holds for a failing
  sub-command within its command.  The outcome of the deploy does not depend on what the
  help invocations return.
\<close>

theorem help_failures_are_local:
  "((runHelp host bp [] = None
      \<or> (\<exists>out. runHelp host bp [] = Some out \<and> parseSubcommands out = []))
     \<longrightarrow> extractCommands host bp dp = helpFallback dp)
   \<and> (runHelp host bp [] = Some out \<and> parseSubcommands out = xs @ c # ys
        \<and> runHelp host bp [c] = None \<longrightarrow>
        extractCommands host bp dp =
          (let b = concat (map (commandDocs host bp dp) (xs @ ys))
           in if b = [] then helpFallback dp else b))
   \<and> (runHelp host bp [c'] = Some cout \<and> parseSubcommands cout = ss @ s # ts
        \<and> runHelp host bp [c', s] = None \<longrightarrow>
        commandDocs host bp dp c' = concat (map (subcommandDocs host bp dp c') (ss @ ts)))
   \<and> fst (deploySkill (host\<lparr>runHelp := r\<rparr>) m fs) = fst (deploySkill host m fs)"
proof (intro conjI impI)
  assume "runHelp host bp [] = None
      \<or> (\<exists>out. runHelp host bp [] = Some out \<and> parseSubcommands out = [])"
  then show "extractCommands host bp dp = helpFallback dp"
    by (auto simp: extractCommands_def)
next
  assume "runHelp host bp [] = Some out \<and> parseSubcommands out = xs @ c # ys
        \<and> runHelp host bp [c] = None"
  then show "extractCommands host bp dp =
          (let b = concat (map (commandDocs host bp dp) (xs @ ys))
           in if b = [] then helpFallback dp else b)"
    by (simp add: extractCommands_def commandDocs_failed Let_def)
next
  assume "runHelp host bp [c'] = Some cout \<and> parseSubcommands cout = ss @ s # ts
        \<and> runHelp host bp [c', s] = None"
  then show "commandDocs host bp dp c' = concat (map (subcommandDocs host bp dp c') (ss @ ts))"
    by (simp add: commandDocs_def subcommandDocs_failed)
next
  show "fst (deploySkill (host\<lparr>runHelp := r\<rparr>) m fs) = fst (deploySkill host m fs)"
    by (rule deploySkill_outcome_independent)
qed

lemma generateSkillDocs_idem:
  assumes sel: "selectedSkill m = Some sk"
    and ne: "pathJoin [Path sk, DocsTemplate sk] \<noteq> pathJoin [getDeployPath m, ''SKILL.md'']"
  shows "generateSkillDocs host m (snd (generateSkillDocs host m fs)) = generateSkillDocs host m fs"
proof (cases "writeFails host (pathJoin [getDeployPath m, ''SKILL.md''])")
  case True
  then show ?thesis by (simp add: generateSkillDocs_def sel WriteFile_def)
next
  case False
  define out where "out = pathJoin [getDeployPath m, ''SKILL.md'']"
  define c where "c = skillDocsContent host fs m sk"
  define md where "md = (case fs out of None \<Rightarrow> octal 6 4 4 AND NOT (umask host)
                         | Some (old, mode) \<Rightarrow> mode)"
  have g: "generateSkillDocs host m fs = (None, fs(out \<mapsto> (c, md)))"
    using False by (simp add: generateSkillDocs_def sel WriteFile_def out_def c_def md_def)
  have "skillDocsContent host (fs(out \<mapsto> (c, md))) m sk = c"
    using ne by (simp add: skillDocsContent_def out_def c_def)
  then have "generateSkillDocs host m (fs(out \<mapsto> (c, md))) = (None, fs(out \<mapsto> (c, md)))"
    using False by (simp add: generateSkillDocs_def sel WriteFile_def out_def)
  with g show ?thesis by simp
qed

text \<open>
  Claim C4.  The rendered documentation depends on the file system only through the
  template file.  When the template is not the output file itself, generating the
  documentation a second time, with the same manifest, configuration, deploy path and help
  output, gives the same result and leaves the same file system: the same bytes are in the
  output file, which keeps the mode it had or, when the first run creates it, has the
  permission \<open>0644\<close> less the bits of the mask.
\<close>

theorem rendering_idempotent:
  "(fs1 (pathJoin [Path sk, DocsTemplate sk]) = fs2 (pathJoin [Path sk, DocsTemplate sk])
      \<longrightarrow> skillDocsContent host fs1 m sk = skillDocsContent host fs2 m sk)
   \<and> (selectedSkill m = Some sk
        \<and> pathJoin [Path sk, DocsTemplate sk] \<noteq> pathJoin [getDeployPath m, ''SKILL.md''] \<longrightarrow>
        generateSkillDocs host m (snd (generateSkillDocs host m fs)) = generateSkillDocs host m fs
        \<and> (\<not> writeFails host (pathJoin [getDeployPath m, ''SKILL.md'']) \<longrightarrow>
             snd (generateSkillDocs host m fs) (pathJoin [getDeployPath m, ''SKILL.md''])
               = Some (skillDocsContent host fs m sk,
                       case fs (pathJoin [getDeployPath m, ''SKILL.md'']) of
                         None \<Rightarrow> octal 6 4 4 AND NOT (umask host)
                       | Some (old, mode) \<Rightarrow> mode)))"
proof (intro conjI impI)
  assume "fs1 (pathJoin [Path sk, DocsTemplate sk]) = fs2 (pathJoin [Path sk, DocsTemplate sk])"
  then show "skillDocsContent host fs1 m sk = skillDocsContent host fs2 m sk"
    by (simp add: skillDocsContent_def)
next
  assume "selectedSkill m = Some sk
        \<and> pathJoin [Path sk, DocsTemplate sk] \<noteq> pathJoin [getDeployPath m, ''SKILL.md'']"
  then show "generateSkillDocs host m (snd (generateSkillDocs host m fs))
             = generateSkillDocs host m fs"
    using generateSkillDocs_idem [of m sk host fs] by simp
next
  assume "selectedSkill m = Some sk
        \<and> pathJoin [Path sk, DocsTemplate sk] \<noteq> pathJoin [getDeployPath m, ''SKILL.md'']"
    and "\<not> writeFails host (pathJoin [getDeployPath m, ''SKILL.md''])"
  then show "snd (generateSkillDocs host m fs) (pathJoin [getDeployPath m, ''SKILL.md''])
               = Some (skillDocsContent host fs m sk,
                       case fs (pathJoin [getDeployPath m, ''SKILL.md'']) of
                         None \<Rightarrow> octal 6 4 4 AND NOT (umask host)
                       | Some (old, mode) \<Rightarrow> mode)"
    by (simp add: generateSkillDocs_def WriteFile_def)
qed

lemma demo_paths:
  "pathJoin [''/src/skills/demo'', ''SKILL.template.md''] = ''/src/skills/demo/SKILL.template.md''"
  "pathJoin [''/home/u/.claude/skills/'', ''demo''] = ''/home/u/.claude/skills/demo''"
  "pathJoin [''/home/u/.claude/skills/demo'', ''SKILL.md''] = ''/home/u/.claude/skills/demo/SKILL.md''"
  "pathJoin [''/home/u/.claude/skills/demo'', ''bin''] = ''/home/u/.claude/skills/demo/bin''"
  "pathJoin [''/home/u/.claude/skills/demo/bin'', ''.env'']
     = ''/home/u/.claude/skills/demo/bin/.env''"
  "pathJoin [''/home/u/.claude/skills/demo/bin'', ''demo'']
     = ''/home/u/.claude/skills/demo/bin/demo''"
  "pathJoin [''/home/u/.claude/skills/demo'', ''bin'', ''demo'']
     = ''/home/u/.claude/skills/demo/bin/demo''"
  "pathJoin [''/src'', ''dist''] = ''/src/dist''"
  "pathJoin [''/src/dist'', ''demo''] = ''/src/dist/demo''"
  by (simp_all add: Clean_def cleanStep_def pathJoin.simps Let_def)

lemma demoReady_fields:
  "getDeployPath demoReady = ''/home/u/.claude/skills/demo''"
  "projectRoot demoReady = ''/src''"
  "selectedSkill demoReady = Some demoSkill"
  "binaryName demoSkill = ''demo''"
  "Path demoSkill = ''/src/skills/demo''"
  "DocsTemplate demoSkill = ''SKILL.template.md''"
  by (simp_all add: demoReady_def getDeployPath_def demoConfirm_def NewModel_def demoSkill_def
      binaryName_def demo_paths)





lemma formatCommand_nonempty: "formatCommand dp c h \<noteq> []"
  by (simp add: formatCommand_def Let_def)

lemma demo_subcommands:
  "parseSubcommands demoTopHelp = [''add'', ''list'', ''task'']"
  "parseSubcommands demoListHelp = []"
  "parseSubcommands demoTaskHelp = [''new'', ''rm'']"
  by code_simp+

theorem help_failures_are_local_witness:
  "extractCommands (demoHost\<lparr>runHelp := \<lambda>binaryPath args. None\<rparr>) ''/src/dist/demo'' ''/d/bin/demo''
     = ''Run `/d/bin/demo --help` to see available commands.''
   \<and> extractCommands demoHost ''/src/dist/demo'' ''/d/bin/demo''
     = formatCommand ''/d/bin/demo'' ''list'' demoListHelp
       @ formatCommand ''/d/bin/demo'' ''task new'' demoNewHelp
   \<and> commandDocs demoHost ''/src/dist/demo'' ''/d/bin/demo'' ''task''
     = formatCommand ''/d/bin/demo'' ''task new'' demoNewHelp"
proof -
  let ?bp = "''/src/dist/demo''" and ?dp = "''/d/bin/demo''"
  have r: "runHelp demoHost ?bp [] = Some demoTopHelp" "runHelp demoHost ?bp [''add''] = None"
    "runHelp demoHost ?bp [''list''] = Some demoListHelp"
    "runHelp demoHost ?bp [''task''] = Some demoTaskHelp"
    "runHelp demoHost ?bp [''task'', ''new''] = Some demoNewHelp"
    "runHelp demoHost ?bp [''task'', ''rm''] = None"
    by (simp_all add: demoHost_def demoHelp_def)
  from help_failures_are_local [where host = "demoHost\<lparr>runHelp := \<lambda>binaryPath args. None\<rparr>"
      and bp = ?bp and dp = ?dp, THEN conjunct1]
  have a: "extractCommands (demoHost\<lparr>runHelp := \<lambda>binaryPath args. None\<rparr>) ?bp ?dp
     = ''Run `/d/bin/demo --help` to see available commands.''"
    by (simp add: helpFallback_def)
  note t = help_failures_are_local [where host = demoHost and bp = ?bp and dp = ?dp
      and out = demoTopHelp and xs = "[]" and c = "''add''" and ys = "[''list'', ''task'']"
      and c' = "''task''" and cout = demoTaskHelp and ss = "[''new'']" and s = "''rm''"
      and ts = "[]"]
  from t [THEN conjunct2, THEN conjunct2, THEN conjunct1]
  have c: "commandDocs demoHost ?bp ?dp ''task'' = formatCommand ?dp ''task new'' demoNewHelp"
    by (simp add: r demo_subcommands subcommandDocs_def)
  have l: "commandDocs demoHost ?bp ?dp ''list'' = formatCommand ?dp ''list'' demoListHelp"
    by (simp add: commandDocs_def r demo_subcommands)
  from t [THEN conjunct2, THEN conjunct1]
  have b: "extractCommands demoHost ?bp ?dp
     = formatCommand ?dp ''list'' demoListHelp @ formatCommand ?dp ''task new'' demoNewHelp"
    by (simp add: r demo_subcommands c l formatCommand_nonempty Let_def)
  from a b c show ?thesis by blast
qed

theorem rendering_idempotent_witness:
  "generateSkillDocs demoHost demoReady (snd (generateSkillDocs demoHost demoReady demoFiles))
     = generateSkillDocs demoHost demoReady demoFiles
   \<and> snd (generateSkillDocs demoHost demoReady demoFiles) ''/home/u/.claude/skills/demo/SKILL.md''
       = Some (skillDocsContent demoHost demoFiles demoReady demoSkill, octal 6 4 4)
   \<and> skillDocsContent demoHost (demoFiles(''/tmp/other'' \<mapsto> (''x'', octal 6 4 4))) demoReady demoSkill
       = skillDocsContent demoHost demoFiles demoReady demoSkill"
proof -
  note t = rendering_idempotent [where m = demoReady and sk = demoSkill and host = demoHost
      and fs = demoFiles and ?fs1.0 = "demoFiles(''/tmp/other'' \<mapsto> (''x'', octal 6 4 4))"
      and ?fs2.0 = demoFiles]
  have h: "selectedSkill demoReady = Some demoSkill
        \<and> pathJoin [Path demoSkill, DocsTemplate demoSkill]
            \<noteq> pathJoin [getDeployPath demoReady, ''SKILL.md'']"
    by (simp add: demoReady_fields demo_paths)
  have w: "\<not> writeFails demoHost (pathJoin [getDeployPath demoReady, ''SKILL.md''])"
    by (simp add: demoHost_def)
  have f: "(demoFiles(''/tmp/other'' \<mapsto> (''x'', octal 6 4 4)))
             (pathJoin [Path demoSkill, DocsTemplate demoSkill])
           = demoFiles (pathJoin [Path demoSkill, DocsTemplate demoSkill])"
    by (simp add: demoReady_fields demo_paths)
  have n: "demoFiles ''/home/u/.claude/skills/demo/SKILL.md'' = None"
    by (simp add: demoFiles_def)
  have u: "octal 6 4 4 AND NOT (umask demoHost) = octal 6 4 4"
    by (simp add: demoHost_def octal_def)
  from mp [OF t [THEN conjunct1] f] mp [OF t [THEN conjunct2] h] w n u
  show ?thesis by (simp add: demoReady_fields demo_paths)
qed

end
